theory Spec2Isabelle
  imports Complex_Main
begin

section \<open>JavaScript values\<close>

text \<open>
  The engine is written in TypeScript and works on plain JavaScript objects. A string is
  a list of characters (code units below 256), an object is the list of its own
  properties in key order, and an AST node is an object of a store, named by its
  address: the engine and the rules keep references to nodes and change them later.
\<close>

abbreviation NL :: char where "NL \<equiv> CHR 0x0A"

text \<open>
  A capture is what a \<open>match\<close> function returns: the matched groups (\<open>capture[0]\<close> is
  the whole match, a group that did not take part is \<open>undefined\<close>) and the \<open>index\<close>
  property, which \<open>RegExp.prototype.exec\<close> sets and a hand-written array lacks.
\<close>

record capture =
  groups :: "string option list"
  index :: "int option"

datatype jsval =
    JUndefined
  | JNull
  | JBool bool
  | JNum int
  | JNaN
  | JStr string
  | JArr "jsval list"
  | JObj "(string \<times> jsval) list"
  | JRef nat
  | JCap capture

type_synonym obj = "(string \<times> jsval) list"

text \<open>Reading a property: an absent property reads as \<open>undefined\<close>.\<close>

definition obj_get :: "obj \<Rightarrow> string \<Rightarrow> jsval" where
  "obj_get ob k = (case map_of ob k of None \<Rightarrow> JUndefined | Some v \<Rightarrow> v)"

text \<open>Writing a property: an existing key keeps its place, a new key goes last.\<close>

fun obj_set :: "(string \<times> 'v) list \<Rightarrow> string \<Rightarrow> 'v \<Rightarrow> (string \<times> 'v) list" where
  "obj_set [] k v = [(k, v)]"
| "obj_set ((k', v') # ob) k v = (if k' = k then (k, v) # ob else (k', v') # obj_set ob k v)"

text \<open>Truthiness, as \<open>if (x)\<close> and \<open>!x\<close> read a value.\<close>

fun truthy :: "jsval \<Rightarrow> bool" where
  "truthy JUndefined = False"
| "truthy JNull = False"
| "truthy (JBool b) = b"
| "truthy (JNum n) = (n \<noteq> 0)"
| "truthy JNaN = False"
| "truthy (JStr s) = (s \<noteq> [])"
| "truthy (JArr _) = True"
| "truthy (JObj _) = True"
| "truthy (JRef _) = True"
| "truthy (JCap _) = True"

text \<open>Decimal digits of a number, for the string conversion of \<open>+\<close>.\<close>

fun digits_of :: "nat \<Rightarrow> string" where
  "digits_of n =
     (if n < 10 then [char_of (48 + n)]
      else digits_of (n div 10) @ [char_of (48 + n mod 10)])"

definition int_to_string :: "int \<Rightarrow> string" where
  "int_to_string n = (if n < 0 then CHR ''-'' # digits_of (nat (- n)) else digits_of (nat n))"

fun join :: "string \<Rightarrow> string list \<Rightarrow> string" where
  "join sep [] = []"
| "join sep [s] = s"
| "join sep (s # t # ss) = s @ sep @ join sep (t # ss)"

text \<open>
  \<open>ToString\<close>: an array joins its elements with commas (\<open>undefined\<close> and \<open>null\<close>
  elements as the empty string), a plain object is \<open>[object Object]\<close>.
\<close>

fun to_string :: "jsval \<Rightarrow> string" where
  "to_string JUndefined = ''undefined''"
| "to_string JNull = ''null''"
| "to_string (JBool b) = (if b then ''true'' else ''false'')"
| "to_string (JNum n) = int_to_string n"
| "to_string JNaN = ''NaN''"
| "to_string (JStr s) = s"
| "to_string (JArr vs) =
     join '','' (map (\<lambda>v. if v = JUndefined \<or> v = JNull then [] else to_string v) vs)"
| "to_string (JObj _) = ''[object Object]''"
| "to_string (JRef _) = ''[object Object]''"
| "to_string (JCap c) = join '','' (map (\<lambda>g. case g of None \<Rightarrow> [] | Some s \<Rightarrow> s) (groups c))"

text \<open>\<open>ToNumber\<close> on the primitives that are not strings (\<open>None\<close> is \<open>NaN\<close>).\<close>

fun to_number :: "jsval \<Rightarrow> int option" where
  "to_number JNull = Some 0"
| "to_number (JBool b) = Some (if b then 1 else 0)"
| "to_number (JNum n) = Some n"
| "to_number _ = None"

fun is_stringy :: "jsval \<Rightarrow> bool" where
  "is_stringy (JStr _) = True"
| "is_stringy (JArr _) = True"
| "is_stringy (JObj _) = True"
| "is_stringy (JRef _) = True"
| "is_stringy (JCap _) = True"
| "is_stringy _ = False"

text \<open>
  The operator \<open>+\<close>: when either operand is a string, or an object (whose primitive
  value is a string), the strings are concatenated; otherwise the numbers are added.
\<close>

definition js_add :: "jsval \<Rightarrow> jsval \<Rightarrow> jsval" where
  "js_add a b =
     (if is_stringy a \<or> is_stringy b then JStr (to_string a @ to_string b)
      else case (to_number a, to_number b) of
             (Some x, Some y) \<Rightarrow> JNum (x + y)
           | _ \<Rightarrow> JNaN)"

text \<open>
  Numbers as a scorer returns them. Only the comparison \<open><=\<close> is used on them, which is
  false whenever an operand is \<open>NaN\<close>.
\<close>

datatype jsnum = NaN | NegInf | Fin rat | PosInf

fun num_le :: "jsnum \<Rightarrow> jsnum \<Rightarrow> bool" where
  "num_le NaN _ = False"
| "num_le _ NaN = False"
| "num_le NegInf _ = True"
| "num_le _ PosInf = True"
| "num_le (Fin a) (Fin b) = (a \<le> b)"
| "num_le (Fin _) NegInf = False"
| "num_le PosInf _ = False"

section \<open>Regular expressions\<close>

text \<open>
  The rules recognize their input with JavaScript regular expressions. A pattern is a
  term of the type \<open>re\<close>, constructor by constructor as the source writes it, and
  \<open>RegExp.prototype.exec\<close> is the backtracking matcher of the language standard: a matcher
  takes the state of the match and a continuation, and a choice that fails further on is
  taken back. Without the flags \<open>i\<close>, \<open>m\<close>, \<open>g\<close>, \<open>y\<close>, \<open>s\<close> and \<open>u\<close>, which no recognizer
  uses.
\<close>

datatype citem =
    CChar char
  | CRange char char
  | CSpace
  | CNotSpace
  | CWord
  | CDigit

datatype re =
    Chr char
  | Cls bool "citem list"
  | Dot
  | Bol
  | Eol
  | WordB
  | Empty
  | Seq re re
  | Alt re re
  | Rep re nat "nat option" bool
  | Grp nat re
  | Ahead re
  | NotAhead re
  | Backref nat

text \<open>
  \<open>Chr\<close> is a literal character, \<open>Cls neg items\<close> a class (\<open>neg\<close> for \<open>[^...]\<close>), \<open>Dot\<close> the
  period, \<open>Bol\<close> and \<open>Eol\<close> the assertions \<open>^\<close> and \<open>$\<close>, \<open>WordB\<close> is \<open>\b\<close>,
  \<open>Rep r mn mx greedy\<close> a quantifier (\<open>mx = None\<close> for no upper bound), \<open>Grp n r\<close> the
  \<open>n\<close>th capturing group, \<open>Ahead\<close> and \<open>NotAhead\<close> the lookaheads \<open>(?=...)\<close> and
  \<open>(?!...)\<close>, and \<open>Backref n\<close> is \<open>\n\<close>.

  The character classes, on code units below 256: \<open>\s\<close> is the white space and the line
  terminators, \<open>\w\<close> the letters, digits and the underscore.
\<close>

definition is_space :: "char \<Rightarrow> bool" where
  "is_space c \<longleftrightarrow>
     c \<in> set [CHR 0x09, CHR 0x0A, CHR 0x0B, CHR 0x0C, CHR 0x0D, CHR 0x20, CHR 0xA0]"

definition in_range :: "char \<Rightarrow> char \<Rightarrow> char \<Rightarrow> bool" where
  "in_range lo hi c \<longleftrightarrow> (of_char lo :: nat) \<le> of_char c \<and> (of_char c :: nat) \<le> of_char hi"

definition is_digit :: "char \<Rightarrow> bool" where
  "is_digit c \<longleftrightarrow> in_range CHR ''0'' CHR ''9'' c"

definition is_word :: "char \<Rightarrow> bool" where
  "is_word c \<longleftrightarrow>
     in_range CHR ''a'' CHR ''z'' c \<or> in_range CHR ''A'' CHR ''Z'' c \<or> is_digit c \<or>
     c = CHR ''_''"

fun citem_has :: "citem \<Rightarrow> char \<Rightarrow> bool" where
  "citem_has (CChar a) c = (c = a)"
| "citem_has (CRange lo hi) c = in_range lo hi c"
| "citem_has CSpace c = is_space c"
| "citem_has CNotSpace c = (\<not> is_space c)"
| "citem_has CWord c = is_word c"
| "citem_has CDigit c = is_digit c"

text \<open>
  The state of a match: the character before the cursor (none at index 0), the input
  from the cursor on, and the captures so far.
\<close>

record mstate =
  behind :: "char option"
  ahead :: string
  captures :: "nat \<Rightarrow> string option"

type_synonym cont = "mstate \<Rightarrow> mstate option"

type_synonym matcher = "mstate \<Rightarrow> cont \<Rightarrow> mstate option"

definition step_char :: "(char \<Rightarrow> bool) \<Rightarrow> matcher" where
  "step_char p x c =
     (case ahead x of
        [] \<Rightarrow> None
      | ch # cs \<Rightarrow> if p ch then c (x\<lparr>behind := Some ch, ahead := cs\<rparr>) else None)"

text \<open>
  \<open>RepeatMatcher\<close> of the standard. Each round clears the captures of the groups inside
  the quantified atom; once the minimum is reached a round that consumes nothing is
  rejected (the cursor never moves back, so the test for no progress is written with
  \<open>\<le>\<close>); a greedy quantifier tries one more round before the continuation, a lazy one
  the continuation first.
\<close>

function repeatMatcher ::
  "matcher \<Rightarrow> nat \<Rightarrow> nat option \<Rightarrow> bool \<Rightarrow> nat list \<Rightarrow> mstate \<Rightarrow> cont \<Rightarrow> mstate option" where
  "repeatMatcher m mn mx greedy parens x c =
     (if mx = Some 0 then c x
      else if mn \<noteq> 0
        then m (x\<lparr>captures := (\<lambda>k. if k \<in> set parens then None else captures x k)\<rparr>)
               (\<lambda>y. repeatMatcher m (mn - 1) (map_option (\<lambda>k. k - 1) mx) greedy parens y c)
      else if \<not> greedy
        then (case c x of
                Some z \<Rightarrow> Some z
              | None \<Rightarrow>
                  m (x\<lparr>captures := (\<lambda>k. if k \<in> set parens then None else captures x k)\<rparr>)
                    (\<lambda>y. if length (ahead x) \<le> length (ahead y) then None
                         else repeatMatcher m 0 (map_option (\<lambda>k. k - 1) mx) greedy parens y c))
      else (case m (x\<lparr>captures := (\<lambda>k. if k \<in> set parens then None else captures x k)\<rparr>)
                   (\<lambda>y. if length (ahead x) \<le> length (ahead y) then None
                        else repeatMatcher m 0 (map_option (\<lambda>k. k - 1) mx) greedy parens y c) of
              Some z \<Rightarrow> Some z
            | None \<Rightarrow> c x))"
  by pat_completeness auto
termination
  by (relation "measures [\<lambda>(m, mn, mx, greedy, parens, x, c). mn,
                          \<lambda>(m, mn, mx, greedy, parens, x, c). length (ahead x)]") auto

primrec parens_of :: "re \<Rightarrow> nat list" where
  "parens_of (Chr a) = []"
| "parens_of (Cls neg items) = []"
| "parens_of Dot = []"
| "parens_of Bol = []"
| "parens_of Eol = []"
| "parens_of WordB = []"
| "parens_of Empty = []"
| "parens_of (Seq r s) = parens_of r @ parens_of s"
| "parens_of (Alt r s) = parens_of r @ parens_of s"
| "parens_of (Rep r mn mx greedy) = parens_of r"
| "parens_of (Grp n r) = n # parens_of r"
| "parens_of (Ahead r) = parens_of r"
| "parens_of (NotAhead r) = parens_of r"
| "parens_of (Backref n) = []"

primrec matchRe :: "re \<Rightarrow> mstate \<Rightarrow> cont \<Rightarrow> mstate option" where
  "matchRe (Chr a) x c = step_char (\<lambda>ch. ch = a) x c"
| "matchRe (Cls neg items) x c =
     step_char (\<lambda>ch. list_ex (\<lambda>i. citem_has i ch) items \<noteq> neg) x c"
| "matchRe Dot x c = step_char (\<lambda>ch. ch \<noteq> CHR 0x0A \<and> ch \<noteq> CHR 0x0D) x c"
| "matchRe Bol x c = (if behind x = None then c x else None)"
| "matchRe Eol x c = (if ahead x = [] then c x else None)"
| "matchRe WordB x c =
     (if (case behind x of None \<Rightarrow> False | Some a \<Rightarrow> is_word a) \<noteq>
         (case ahead x of [] \<Rightarrow> False | b # _ \<Rightarrow> is_word b)
      then c x else None)"
| "matchRe Empty x c = c x"
| "matchRe (Seq r s) x c = matchRe r x (\<lambda>y. matchRe s y c)"
| "matchRe (Alt r s) x c =
     (case matchRe r x c of Some z \<Rightarrow> Some z | None \<Rightarrow> matchRe s x c)"
| "matchRe (Rep r mn mx greedy) x c =
     repeatMatcher (matchRe r) mn mx greedy (parens_of r) x c"
| "matchRe (Grp n r) x c =
     matchRe r x
       (\<lambda>y. c (y\<lparr>captures := (captures y)
                     (n := Some (take (length (ahead x) - length (ahead y)) (ahead x)))\<rparr>))"
| "matchRe (Ahead r) x c =
     (case matchRe r x Some of None \<Rightarrow> None | Some y \<Rightarrow> c (x\<lparr>captures := captures y\<rparr>))"
| "matchRe (NotAhead r) x c =
     (case matchRe r x Some of None \<Rightarrow> c x | Some y \<Rightarrow> None)"
| "matchRe (Backref n) x c =
     (case captures x n of
        None \<Rightarrow> c x
      | Some s \<Rightarrow>
          if take (length s) (ahead x) = s
          then c (x\<lparr>behind := (if s = [] then behind x else Some (last s)),
                   ahead := drop (length s) (ahead x)\<rparr>)
          else None)"

text \<open>
  The match at the cursor, as the array \<open>exec\<close> returns: the whole match, the groups 1 to
  the last one, and the index where the match begins.
\<close>

definition match_at :: "re \<Rightarrow> nat \<Rightarrow> char option \<Rightarrow> string \<Rightarrow> capture option" where
  "match_at r i p s =
     (case matchRe r \<lparr>behind = p, ahead = s, captures = (\<lambda>_. None)\<rparr> Some of
        None \<Rightarrow> None
      | Some y \<Rightarrow>
          Some \<lparr>groups = Some (take (length s - length (ahead y)) s) #
                           map (captures y) [1..<Suc (fold max (parens_of r) 0)],
                index = Some (int i)\<rparr>)"

text \<open>\<open>exec\<close> tries the indices from 0 on and returns the first match.\<close>

fun exec_from :: "re \<Rightarrow> nat \<Rightarrow> char option \<Rightarrow> string \<Rightarrow> capture option" where
  "exec_from r i p s =
     (case match_at r i p s of
        Some c \<Rightarrow> Some c
      | None \<Rightarrow> (case s of [] \<Rightarrow> None | ch # cs \<Rightarrow> exec_from r (Suc i) (Some ch) cs))"

definition exec :: "re \<Rightarrow> string \<Rightarrow> capture option" where
  "exec r s = exec_from r 0 None s"

text \<open>Shorthands to write patterns as the source does.\<close>

fun seqs :: "re list \<Rightarrow> re" where
  "seqs [] = Empty"
| "seqs [r] = r"
| "seqs (r # rs) = Seq r (seqs rs)"

fun alts :: "re list \<Rightarrow> re" where
  "alts [] = Empty"
| "alts [r] = r"
| "alts (r # rs) = Alt r (alts rs)"

definition star :: "re \<Rightarrow> re" where "star r = Rep r 0 None True"

definition rplus :: "re \<Rightarrow> re" where "rplus r = Rep r 1 None True"

definition opt :: "re \<Rightarrow> re" where "opt r = Rep r 0 (Some 1) True"

definition lazy_star :: "re \<Rightarrow> re" where "lazy_star r = Rep r 0 None False"

definition lazy_plus :: "re \<Rightarrow> re" where "lazy_plus r = Rep r 1 None False"

definition at_least :: "nat \<Rightarrow> re \<Rightarrow> re" where "at_least n r = Rep r n None True"

definition lit :: "string \<Rightarrow> re" where "lit s = seqs (map Chr s)"

definition one_of :: "string \<Rightarrow> re" where "one_of s = Cls False (map CChar s)"

definition none_of :: "string \<Rightarrow> re" where "none_of s = Cls True (map CChar s)"

abbreviation BSL :: char where "BSL \<equiv> CHR 0x5C"
abbreviation DQ :: char where "DQ \<equiv> CHR 0x22"
abbreviation SQ :: char where "SQ \<equiv> CHR 0x27"
abbreviation BQ :: char where "BQ \<equiv> CHR 0x60"

definition sp :: re where "sp = Chr CHR '' ''"

definition nl :: re where "nl = Chr NL"

definition not_nl :: re where "not_nl = Cls True [CChar NL]"

definition any_char :: re where "any_char = Cls False [CSpace, CNotSpace]"

definition ws :: re where "ws = Cls False [CSpace]"

definition non_ws :: re where "non_ws = Cls False [CNotSpace]"

text \<open>The end of a block, \<open>(?:\n *)+\n\<close>.\<close>

definition block_end :: re where "block_end = Seq (rplus (Seq nl (star sp))) nl"

section \<open>Parse state, nodes and rules (type.ts)\<close>

text \<open>
  What one parse call threads through its rules: the \<open>ParserState\<close> object, and the
  store of the AST nodes built so far (\<open>fresh\<close> is the next free address).
\<close>

record world =
  pstate :: obj
  heap :: "nat \<Rightarrow> obj"
  fresh :: nat

datatype error = NoMatchingRule | UnanchoredCapture | RuleNotFound | TypeError

text \<open>
  \<open>Parser\<close>: the source and the state go in, the node sequence comes out. \<open>None\<close> is a
  call that does not return; \<open>Inl\<close> is a thrown error.
\<close>

type_synonym parser = "string \<Rightarrow> world \<Rightarrow> (error + nat list \<times> world) option"

record rule =
  name :: string
  match :: "string \<Rightarrow> world \<Rightarrow> capture option"
  parse :: "capture \<Rightarrow> parser \<Rightarrow> world \<Rightarrow> (error + nat \<times> world) option"
  quality :: "(capture \<Rightarrow> world \<Rightarrow> jsnum) option"

definition get_field :: "world \<Rightarrow> nat \<Rightarrow> string \<Rightarrow> jsval" where
  "get_field w a k = obj_get (heap w a) k"

definition set_field :: "world \<Rightarrow> nat \<Rightarrow> string \<Rightarrow> jsval \<Rightarrow> world" where
  "set_field w a k v = w\<lparr>heap := (heap w)(a := obj_set (heap w a) k v)\<rparr>"

definition alloc :: "obj \<Rightarrow> world \<Rightarrow> nat \<times> world" where
  "alloc ob w = (fresh w, w\<lparr>heap := (heap w)(fresh w := ob), fresh := Suc (fresh w)\<rparr>)"

section \<open>The rule registry (rule-list.ts)\<close>

text \<open>A \<open>RuleList\<close> is an array of rules; its methods, on the array's content.\<close>

fun findIndex :: "('a \<Rightarrow> bool) \<Rightarrow> 'a list \<Rightarrow> nat option" where
  "findIndex p [] = None"
| "findIndex p (x # xs) = (if p x then Some 0 else map_option Suc (findIndex p xs))"

definition insertBefore :: "string \<Rightarrow> rule \<Rightarrow> rule list \<Rightarrow> error + rule list" where
  "insertBefore rname newRule this =
     (case findIndex (\<lambda>r. name r = rname) this of
        None \<Rightarrow> Inl RuleNotFound
      | Some i \<Rightarrow> Inr (take i this @ newRule # drop i this))"

definition insertAfter :: "string \<Rightarrow> rule \<Rightarrow> rule list \<Rightarrow> error + rule list" where
  "insertAfter rname newRule this =
     (case findIndex (\<lambda>r. name r = rname) this of
        None \<Rightarrow> Inl RuleNotFound
      | Some i \<Rightarrow> Inr (take (i + 1) this @ newRule # drop (i + 1) this))"

definition add :: "rule \<Rightarrow> rule list \<Rightarrow> rule list" where
  "add r this = this @ [r]"

definition get :: "string \<Rightarrow> rule list \<Rightarrow> rule option" where
  "get rname this = find (\<lambda>r. name r = rname) this"

definition remove :: "string \<Rightarrow> rule list \<Rightarrow> error + rule list" where
  "remove rname this =
     (case findIndex (\<lambda>r. name r = rname) this of
        None \<Rightarrow> Inl RuleNotFound
      | Some i \<Rightarrow> Inr (take i this @ drop (i + 1) this))"

text \<open>
  \<open>toRuleObject\<close> fills an object keyed by the rules' names: a name met again replaces
  the rule under the key, which keeps its place.
\<close>

definition toRuleObject :: "rule list \<Rightarrow> (string \<times> rule) list" where
  "toRuleObject this = foldl (\<lambda>result r. obj_set result (name r) r) [] this"

text \<open>
  Registries are objects too: a store of arrays, an address is an index into it. The
  constructor \<open>new RuleList(input)\<close> makes a new array and pushes the elements of
  \<open>input\<close>; \<open>clone\<close> is \<open>new RuleList(this)\<close>.
\<close>

type_synonym registries = "rule list list"

definition new_RuleList :: "rule list option \<Rightarrow> registries \<Rightarrow> nat \<times> registries" where
  "new_RuleList input rs =
     (length rs, rs @ [case input of None \<Rightarrow> [] | Some xs \<Rightarrow> [] @ xs])"

definition clone :: "nat \<Rightarrow> registries \<Rightarrow> nat \<times> registries" where
  "clone this rs = new_RuleList (Some (rs ! this)) rs"

datatype mutation =
    Add rule
  | InsertBefore string rule
  | InsertAfter string rule
  | Remove string

fun mutate :: "mutation \<Rightarrow> rule list \<Rightarrow> error + rule list" where
  "mutate (Add r) this = Inr (add r this)"
| "mutate (InsertBefore n r) this = insertBefore n r this"
| "mutate (InsertAfter n r) this = insertAfter n r this"
| "mutate (Remove n) this = remove n this"

text \<open>
  A method call on the registry at address \<open>this\<close>; a call that throws leaves the array
  as it was.
\<close>

definition invoke :: "nat \<Rightarrow> mutation \<Rightarrow> registries \<Rightarrow> registries" where
  "invoke this m rs = (case mutate m (rs ! this) of Inl e \<Rightarrow> rs | Inr xs \<Rightarrow> rs[this := xs])"

fun invoke_all :: "nat \<Rightarrow> mutation list \<Rightarrow> registries \<Rightarrow> registries" where
  "invoke_all this [] rs = rs"
| "invoke_all this (m # ms) rs = invoke_all this ms (invoke this m rs)"

section \<open>The parser (parser.ts)\<close>

text \<open>\<open>preprocess\<close>: \<open>\r\n\<close> and \<open>\r\<close> become \<open>\n\<close>, form feeds go, a tab is four spaces.\<close>

fun replace_cr_newline :: "string \<Rightarrow> string" where
  "replace_cr_newline [] = []"
| "replace_cr_newline (c # cs) =
     (if c = CHR 0x0D then
        (case cs of
           [] \<Rightarrow> [NL]
         | d # ds \<Rightarrow> if d = NL then NL # replace_cr_newline ds else NL # replace_cr_newline cs)
      else c # replace_cr_newline cs)"

definition remove_formfeed :: "string \<Rightarrow> string" where
  "remove_formfeed s = filter (\<lambda>c. c \<noteq> CHR 0x0C) s"

definition expand_tab :: "string \<Rightarrow> string" where
  "expand_tab s = concat (map (\<lambda>c. if c = CHR 0x09 then ''    '' else [c]) s)"

definition preprocess :: "string \<Rightarrow> string" where
  "preprocess source = expand_tab (remove_formfeed (replace_cr_newline source))"

text \<open>
  \<open>populateInitialState\<close>: every own property of \<open>defaultState\<close> is assigned to the
  given state object.
\<close>

definition populateInitialState :: "obj \<Rightarrow> obj \<Rightarrow> obj" where
  "populateInitialState givenState defaultState =
     foldl (\<lambda>state (prop, v). obj_set state prop v) givenState defaultState"

text \<open>
  The variables of the rule walk: the best match so far (\<open>ruleType\<close>, \<open>rule\<close>,
  \<open>capture\<close>, all \<open>null\<close> at first), its \<open>quality\<close> (\<open>NaN\<close> at first) and the loop
  index \<open>i\<close>.
\<close>

record best =
  best_ruleType :: "string option"
  best_rule :: "rule option"
  best_capture :: "capture option"
  best_quality :: jsnum
  best_i :: nat

definition no_best :: best where
  "no_best = \<lparr>best_ruleType = None, best_rule = None, best_capture = None,
               best_quality = NaN, best_i = 0\<rparr>"

text \<open>
  The score of a match: \<open>currRule.quality ? currRule.quality(currCapture, state) : 0\<close>.
\<close>

definition currQuality :: "rule \<Rightarrow> capture \<Rightarrow> world \<Rightarrow> jsnum" where
  "currQuality currRule currCapture w =
     (case quality currRule of Some q \<Rightarrow> q currCapture w | None \<Rightarrow> Fin 0)"

text \<open>
  The body of the \<open>do ... while\<close> loop of \<open>nestedParse\<close>, up to the increment: the
  rule under the cursor is asked, and its match replaces the best one unless
  \<open>currQuality <= quality\<close>.
\<close>

definition consult :: "string \<Rightarrow> world \<Rightarrow> best \<Rightarrow> string \<times> rule \<Rightarrow> best" where
  "consult source w b cur =
     (case match (snd cur) source w of
        None \<Rightarrow> b
      | Some currCapture \<Rightarrow>
          if \<not> num_le (currQuality (snd cur) currCapture w) (best_quality b)
          then b\<lparr>best_ruleType := Some (fst cur), best_rule := Some (snd cur),
                 best_capture := Some currCapture,
                 best_quality := currQuality (snd cur) currCapture w\<rparr>
          else b)"

text \<open>
  The loop itself. \<open>cur\<close> is \<open>(currRuleType, currRule)\<close>, the rule under the cursor,
  and \<open>rest\<close> the rules after it, in the order of \<open>Object.keys(rules)\<close>. The body runs
  before the condition is read, and the condition reads the rule that comes next:
  \<open>currRule && (!capture || currRule.quality)\<close>.
\<close>

fun walk :: "string \<Rightarrow> world \<Rightarrow> string \<times> rule \<Rightarrow> (string \<times> rule) list \<Rightarrow> best \<Rightarrow> best" where
  "walk source w cur rest b =
     (let b1 = consult source w b cur;
          b2 = b1\<lparr>best_i := best_i b1 + 1\<rparr>
      in case rest of
           [] \<Rightarrow> b2
         | nxt # rest' \<Rightarrow>
             if best_capture b2 = None \<or> quality (snd nxt) \<noteq> None
             then walk source w nxt rest' b2
             else b2)"

text \<open>
  The walk from the first rule, \<open>rules[ruleList[0]]\<close>. With no rule at all the first
  \<open>currRule\<close> is \<open>undefined\<close> and \<open>currRule.match\<close> throws a \<open>TypeError\<close>.
\<close>

definition select :: "(string \<times> rule) list \<Rightarrow> string \<Rightarrow> world \<Rightarrow> error + best" where
  "select rules source w =
     (case rules of
        [] \<Rightarrow> Inl TypeError
      | first # rest \<Rightarrow> Inr (walk source w first rest no_best))"

text \<open>
  The check after the walk: \<open>if (!rule || !capture || !ruleType)\<close>. The empty string is
  falsy, so a match of a rule whose name is empty does not pass either.
\<close>

definition found :: "best \<Rightarrow> (string \<times> rule \<times> capture) option" where
  "found b =
     (case (best_rule b, best_capture b, best_ruleType b) of
        (Some r, Some c, Some t) \<Rightarrow> if t = [] then None else Some (t, r, c)
      | _ \<Rightarrow> None)"

text \<open>\<open>if (capture.index)\<close>: the property is present and not zero.\<close>

definition index_truthy :: "capture \<Rightarrow> bool" where
  "index_truthy c = (case index c of None \<Rightarrow> False | Some k \<Rightarrow> k \<noteq> 0)"

text \<open>
  What follows \<open>rule.parse\<close> in the loop body: the default type, the collapse of text
  nodes, \<open>state.prevCapture\<close>.
\<close>

definition default_type :: "string \<Rightarrow> nat \<Rightarrow> world \<Rightarrow> world" where
  "default_type ruleType parsed w =
     (if \<not> truthy (get_field w parsed ''type'') then set_field w parsed ''type'' (JStr ruleType)
      else w)"

definition collapse :: "nat list \<Rightarrow> nat \<Rightarrow> world \<Rightarrow> nat list \<times> world" where
  "collapse result parsed w =
     (if get_field w parsed ''type'' = JStr ''text'' \<and> result \<noteq> [] \<and>
         get_field w (last result) ''type'' = JStr ''text''
      then (result, set_field w (last result) ''content''
                      (js_add (get_field w (last result) ''content'')
                              (get_field w parsed ''content'')))
      else (result @ [parsed], w))"

definition set_prevCapture :: "jsval \<Rightarrow> world \<Rightarrow> world" where
  "set_prevCapture v w = w\<lparr>pstate := obj_set (pstate w) ''prevCapture'' v\<rparr>"

text \<open>
  \<open>nestedParse\<close>, the \<open>while (source)\<close> loop with its result so far. The loop need not
  end (a capture may be empty, a rule may parse its own capture again), so the function
  counts down: each turn of the loop and each nested call takes one unit, and \<open>None\<close> is
  a call that used them all without returning.
\<close>

fun parseLoop ::
  "(string \<times> rule) list \<Rightarrow> nat \<Rightarrow> string \<Rightarrow> nat list \<Rightarrow> world \<Rightarrow> (error + nat list \<times> world) option"
where
  "parseLoop rules 0 source result w =
     (if source = [] then Some (Inr (result, w)) else None)"
| "parseLoop rules (Suc n) source result w =
     (if source = [] then Some (Inr (result, w))
      else case select rules source w of
        Inl e \<Rightarrow> Some (Inl e)
      | Inr b \<Rightarrow>
          (case found b of
             None \<Rightarrow> Some (Inl NoMatchingRule)
           | Some (ruleType, rule, capture) \<Rightarrow>
               if index_truthy capture then Some (Inl UnanchoredCapture)
               else
                 (case parse rule capture (\<lambda>src w'. parseLoop rules n src [] w') w of
                    None \<Rightarrow> None
                  | Some (Inl e) \<Rightarrow> Some (Inl e)
                  | Some (Inr (parsed, w1)) \<Rightarrow>
                      (case collapse result parsed (default_type ruleType parsed w1) of
                         (result', w2) \<Rightarrow>
                           (case groups capture of
                              Some c0 # _ \<Rightarrow>
                                parseLoop rules n (drop (length c0) source) result'
                                  (set_prevCapture (JCap capture) w2)
                            | _ \<Rightarrow> Some (Inl TypeError))))))"

definition nestedParse :: "(string \<times> rule) list \<Rightarrow> nat \<Rightarrow> parser" where
  "nestedParse rules n source w = parseLoop rules n source [] w"

text \<open>
  \<open>outerParse\<close>, the function \<open>createParser\<close> returns. The state argument is optional
  and defaults to \<open>{ inline: false }\<close>.
\<close>

definition outerParse ::
  "rule list \<Rightarrow> obj \<Rightarrow> nat \<Rightarrow> string \<Rightarrow> obj option \<Rightarrow> world \<Rightarrow> (error + nat list \<times> world) option"
where
  "outerParse ruleListInput defaultState n source state w =
     (let latestState = populateInitialState
                          (case state of None \<Rightarrow> [(''inline'', JBool False)] | Some s \<Rightarrow> s)
                          defaultState;
          source' = (if \<not> truthy (obj_get latestState ''inline'') \<and>
                        \<not> truthy (obj_get latestState ''disableAutoBlockNewlines'')
                     then source @ [NL, NL] else source);
          latestState' = obj_set latestState ''prevCapture'' JUndefined
      in nestedParse (toRuleObject ruleListInput) n (preprocess source')
           (w\<lparr>pstate := latestState'\<rparr>))"

section \<open>Helpers of the rules (utilities.ts)\<close>

text \<open>
  \<open>inlineRegex\<close>, \<open>blockRegex\<close> and \<open>anyScopeRegex\<close> make a match function from a pattern.
\<close>

definition inlineRegex :: "re \<Rightarrow> string \<Rightarrow> world \<Rightarrow> capture option" where
  "inlineRegex regex source w =
     (if truthy (obj_get (pstate w) ''inline'') then exec regex source else None)"

definition blockRegex :: "re \<Rightarrow> string \<Rightarrow> world \<Rightarrow> capture option" where
  "blockRegex regex source w =
     (if truthy (obj_get (pstate w) ''inline'') then None else exec regex source)"

definition anyScopeRegex :: "re \<Rightarrow> string \<Rightarrow> world \<Rightarrow> capture option" where
  "anyScopeRegex regex source w = exec regex source"

text \<open>
  \<open>capture[n]\<close>, as the string it holds (\<open>None\<close> when it is \<open>undefined\<close>) and as a value.
\<close>

definition grp :: "capture \<Rightarrow> nat \<Rightarrow> string option" where
  "grp c n = (if n < length (groups c) then groups c ! n else None)"

definition grp_val :: "capture \<Rightarrow> nat \<Rightarrow> jsval" where
  "grp_val c n = (case grp c n of None \<Rightarrow> JUndefined | Some s \<Rightarrow> JStr s)"

text \<open>\<open>a || b\<close> on two captured groups: the first unless it is \<open>undefined\<close> or empty.\<close>

definition grp_or :: "capture \<Rightarrow> nat \<Rightarrow> nat \<Rightarrow> string option" where
  "grp_or c n m = (case grp c n of Some (a # s) \<Rightarrow> Some (a # s) | _ \<Rightarrow> grp c m)"

text \<open>
  \<open>unescapeUrl\<close> replaces every \<open>\\<close> followed by a character that is no letter, digit
  or space by that character, from left to right (\<open>UNESCAPE_URL_R\<close> with \<open>'$1'\<close>).
\<close>

fun unescapeUrl :: "string \<Rightarrow> string" where
  "unescapeUrl (a # b # cs) =
     (if a = BSL \<and> \<not> (is_digit b \<or> in_range CHR ''A'' CHR ''Z'' b \<or>
                         in_range CHR ''a'' CHR ''z'' b \<or> is_space b)
      then b # unescapeUrl cs
      else a # unescapeUrl (b # cs))"
| "unescapeUrl cs = cs"

text \<open>
  A call of the \<open>parse\<close> callback. The source may be \<open>undefined\<close> (a group that did not
  take part): \<open>while (source)\<close> then ends at once with no node.
\<close>

definition call_parse :: "parser \<Rightarrow> string option \<Rightarrow> world \<Rightarrow> (error + nat list \<times> world) option" where
  "call_parse p source w =
     (case source of None \<Rightarrow> Some (Inr ([], w)) | Some s \<Rightarrow> p s w)"

definition set_state :: "string \<Rightarrow> jsval \<Rightarrow> world \<Rightarrow> world" where
  "set_state k v w = w\<lparr>pstate := obj_set (pstate w) k v\<rparr>"

text \<open>
  \<open>parseInline\<close> sets \<open>state.inline\<close> for the nested parse and puts the old value back
  after it (not when the nested parse throws).
\<close>

definition parseInline :: "parser \<Rightarrow> string option \<Rightarrow> world \<Rightarrow> (error + nat list \<times> world) option" where
  "parseInline p content w =
     (let isCurrentlyInline =
            (if truthy (obj_get (pstate w) ''inline'') then obj_get (pstate w) ''inline''
             else JBool False)
      in case call_parse p content (set_state ''inline'' (JBool True) w) of
           None \<Rightarrow> None
         | Some (Inl e) \<Rightarrow> Some (Inl e)
         | Some (Inr (result, w')) \<Rightarrow>
             Some (Inr (result, set_state ''inline'' isCurrentlyInline w')))"

text \<open>A node sequence as a value: the array of the references.\<close>

definition nodes :: "nat list \<Rightarrow> jsval" where
  "nodes as = JArr (map JRef as)"

text \<open>A builder that returns the object literal \<open>ob\<close>: a new node of the store.\<close>

definition build :: "obj \<Rightarrow> world \<Rightarrow> (error + nat \<times> world) option" where
  "build ob w = Some (Inr (alloc ob w))"

definition parseCaptureInline :: "capture \<Rightarrow> parser \<Rightarrow> world \<Rightarrow> (error + nat \<times> world) option" where
  "parseCaptureInline capture p w =
     (case parseInline p (grp capture 1) w of
        None \<Rightarrow> None
      | Some (Inl e) \<Rightarrow> Some (Inl e)
      | Some (Inr (result, w')) \<Rightarrow> build [(''content'', nodes result)] w')"

definition ignoreCapture :: "capture \<Rightarrow> parser \<Rightarrow> world \<Rightarrow> (error + nat \<times> world) option" where
  "ignoreCapture capture p w = build [] w"

section \<open>The default rules (default-rules.ts)\<close>

subsection \<open>Strings\<close>

text \<open>\<open>s.replace(/\s+/g, ' ')\<close>: every run of white space becomes one space.\<close>

function collapse_spaces :: "string \<Rightarrow> string" where
  "collapse_spaces [] = []"
| "collapse_spaces (c # cs) =
     (if is_space c then CHR '' '' # collapse_spaces (dropWhile is_space cs)
      else c # collapse_spaces cs)"
  by pat_completeness auto
termination
  by (relation "measure length") (auto simp: length_dropWhile_le less_Suc_eq_le)

text \<open>\<open>toLowerCase\<close> on code units below 256.\<close>

definition lower_char :: "char \<Rightarrow> char" where
  "lower_char c =
     (if in_range CHR ''A'' CHR ''Z'' c \<or>
         (in_range (CHR 0xC0) (CHR 0xDE) c \<and> c \<noteq> CHR 0xD7)
      then char_of (of_char c + (32::nat)) else c)"

definition toLowerCase :: "string \<Rightarrow> string" where
  "toLowerCase s = map lower_char s"

text \<open>\<open>trim\<close>: the white space at both ends goes.\<close>

definition trim :: "string \<Rightarrow> string" where
  "trim s = rev (dropWhile is_space (rev (dropWhile is_space s)))"

subsection \<open>Forward references\<close>

text \<open>
  \<open>state._defs\<close> and \<open>state._refs\<close> are plain objects, made by \<open>{}\<close> and keyed by the
  normalized names. A plain object inherits the members of \<open>Object.prototype\<close>: reading a
  name that is no own property gives the inherited member when there is one. These
  members are functions and, under \<open>__proto__\<close>, the prototype object itself: values that
  are truthy, that hold no \<open>target\<close> and no \<open>title\<close>, and that have neither \<open>push\<close> nor
  \<open>forEach\<close>. The model reads every one of them as the empty object, which is all of
  that.
\<close>

definition Object_prototype :: "string list" where
  "Object_prototype =
     [''constructor'', ''hasOwnProperty'', ''isPrototypeOf'', ''propertyIsEnumerable'',
      ''toLocaleString'', ''toString'', ''valueOf'', ''__defineGetter__'', ''__defineSetter__'',
      ''__lookupGetter__'', ''__lookupSetter__'', ''__proto__'']"

definition inherited :: "string \<Rightarrow> jsval" where
  "inherited k = (if k \<in> set Object_prototype then JObj [] else JUndefined)"

text \<open>
  An assignment to \<open>__proto__\<close> makes no own property: it replaces the prototype when the
  value is an object or \<open>null\<close> and does nothing otherwise. The model keeps the prototype
  that was assigned in the list of the object, under the name \<open>__proto__\<close>, and reads a
  name that is no own property from it first.
\<close>

definition dict_get :: "obj \<Rightarrow> string \<Rightarrow> jsval" where
  "dict_get ob k =
     (case map_of ob k of
        Some v \<Rightarrow> v
      | None \<Rightarrow>
          (case map_of ob ''__proto__'' of
             Some (JObj p) \<Rightarrow> (case map_of p k of Some v \<Rightarrow> v | None \<Rightarrow> inherited k)
           | Some JNull \<Rightarrow> JUndefined
           | _ \<Rightarrow> inherited k))"

definition dict_set :: "obj \<Rightarrow> string \<Rightarrow> jsval \<Rightarrow> obj" where
  "dict_set ob k v =
     (if k = ''__proto__''
      then (case v of
              JObj _ \<Rightarrow> obj_set ob k v
            | JArr _ \<Rightarrow> obj_set ob k v
            | JRef _ \<Rightarrow> obj_set ob k v
            | JCap _ \<Rightarrow> obj_set ob k v
            | JNull \<Rightarrow> obj_set ob k v
            | _ \<Rightarrow> ob)
      else obj_set ob k v)"

text \<open>Reading a property of a value: of a plain object as above, of a primitive nothing.\<close>

definition prop_of :: "jsval \<Rightarrow> string \<Rightarrow> jsval" where
  "prop_of v k = (case v of JObj ob \<Rightarrow> dict_get ob k | _ \<Rightarrow> JUndefined)"

text \<open>
  \<open>parseRef\<close>. The node takes the target and the title of the definition when that is
  known already, and in any case joins the list \<open>state._refs[ref]\<close>. \<open>push\<close> on a value
  that is no array is a \<open>TypeError\<close>.
\<close>

definition parseRef :: "capture \<Rightarrow> world \<Rightarrow> nat \<Rightarrow> (error + nat \<times> world) option" where
  "parseRef capture w refNode =
     (case grp_or capture 2 1 of
        None \<Rightarrow> Some (Inl TypeError)
      | Some s \<Rightarrow>
          let ref = toLowerCase (collapse_spaces s);
              defs = obj_get (pstate w) ''_defs'';
              w1 = (if truthy defs \<and> truthy (prop_of defs ref)
                    then set_field (set_field w refNode ''target'' (prop_of (prop_of defs ref) ''target''))
                           refNode ''title'' (prop_of (prop_of defs ref) ''title'')
                    else w);
              refs = (if truthy (obj_get (pstate w1) ''_refs'') then obj_get (pstate w1) ''_refs''
                      else JObj [])
          in case refs of
               JObj ob \<Rightarrow>
                 (case (if truthy (dict_get ob ref) then dict_get ob ref else JArr []) of
                    JArr ns \<Rightarrow>
                      Some (Inr (refNode,
                        set_state ''_refs'' (JObj (dict_set ob ref (JArr (ns @ [JRef refNode])))) w1))
                  | _ \<Rightarrow> Some (Inl TypeError))
             | _ \<Rightarrow> Some (Inl TypeError))"

text \<open>
  The \<open>forEach\<close> of the \<open>def\<close> rule: every node of the list gets the target and the
  title. An element that is no node cannot take a property.
\<close>

fun patch_refs :: "jsval \<Rightarrow> jsval \<Rightarrow> jsval list \<Rightarrow> world \<Rightarrow> error + world" where
  "patch_refs target title [] w = Inr w"
| "patch_refs target title (JRef refNode # ns) w =
     patch_refs target title ns (set_field (set_field w refNode ''target'' target) refNode ''title'' title)"
| "patch_refs target title (_ # ns) w = Inl TypeError"

text \<open>
  The \<open>parse\<close> of the \<open>def\<close> rule. \<open>forEach\<close> on a value that is no array is a
  \<open>TypeError\<close>.
\<close>

definition def_parse :: "capture \<Rightarrow> parser \<Rightarrow> world \<Rightarrow> (error + nat \<times> world) option" where
  "def_parse capture p w =
     (case grp capture 1 of
        None \<Rightarrow> Some (Inl TypeError)
      | Some s \<Rightarrow>
          let def = toLowerCase (collapse_spaces s);
              target = grp_val capture 2;
              title = grp_val capture 3;
              refs = obj_get (pstate w) ''_refs''
          in case (if truthy refs \<and> truthy (prop_of refs def)
                   then (case prop_of refs def of
                           JArr ns \<Rightarrow> patch_refs target title ns w
                         | _ \<Rightarrow> Inl TypeError)
                   else Inr w) of
               Inl e \<Rightarrow> Some (Inl e)
             | Inr w1 \<Rightarrow>
                 (case (if truthy (obj_get (pstate w1) ''_defs'') then obj_get (pstate w1) ''_defs''
                        else JObj []) of
                    JObj ob \<Rightarrow>
                      build [(''def'', JStr def), (''target'', target), (''title'', title)]
                        (set_state ''_defs''
                           (JObj (dict_set ob def (JObj [(''target'', target), (''title'', title)]))) w1)
                  | _ \<Rightarrow> Some (Inl TypeError)))"

subsection \<open>The patterns\<close>

definition LIST_BULLET :: re where
  "LIST_BULLET = Alt (one_of ''*+-'') (Seq (rplus (Cls False [CDigit])) (Chr CHR ''.''))"

definition LIST_R :: re where
  "LIST_R = seqs [Bol, Grp 1 (star sp), Grp 2 LIST_BULLET, sp, lazy_plus any_char,
     Alt (seqs [at_least 2 nl, NotAhead sp, NotAhead (seqs [Backref 1, LIST_BULLET, sp]), star nl])
         (seqs [star ws, star nl, Eol])]"

definition LIST_LOOKBEHIND_R :: re where
  "LIST_LOOKBEHIND_R = seqs [Alt Bol nl, Grp 1 (star sp), Eol]"

definition TABLE_REGEX :: re where
  "TABLE_REGEX = seqs [Bol, star sp, Grp 1 (Seq (Chr CHR ''|'') (rplus Dot)), nl, star sp,
     Chr CHR ''|'', Grp 2 (seqs [star sp, rplus (one_of ''-:''), star (one_of ''-| :'')]), nl,
     Grp 3 (star (seqs [star sp, Chr CHR ''|'', star Dot, Alt nl Eol])), star nl]"

definition NPTABLE_REGEX :: re where
  "NPTABLE_REGEX = seqs [Bol, star sp, Grp 1 (seqs [non_ws, star Dot, Chr CHR ''|'', star Dot]), nl,
     star sp, Grp 2 (seqs [rplus (one_of ''-:''), star sp, Chr CHR ''|'', star (one_of ''-| :'')]), nl,
     Grp 3 (star (seqs [star Dot, Chr CHR ''|'', star Dot, Alt nl Eol])), star nl]"

definition LINK_INSIDE :: re where
  "LINK_INSIDE = star (alts [seqs [Chr CHR ''['', star (none_of '']''), Chr CHR '']''],
                             none_of ''[]'',
                             Seq (Chr CHR '']'') (Ahead (Seq (star (none_of ''['')) (Chr CHR '']'')))])"

definition LINK_HREF_AND_TITLE :: re where
  "LINK_HREF_AND_TITLE = seqs [star ws, opt (Chr CHR ''<''),
     Grp 2 (lazy_star (alts [seqs [Chr CHR ''('', star (none_of '')''), Chr CHR '')''],
                             Cls True [CSpace, CChar BSL],
                             Seq (Chr BSL) Dot])),
     opt (Chr CHR ''>''),
     opt (seqs [rplus ws, one_of [SQ, DQ], Grp 3 (lazy_star any_char), one_of [SQ, DQ]]),
     star ws]"

definition AUTOLINK_MAILTO_CHECK_R :: re where
  "AUTOLINK_MAILTO_CHECK_R = seqs [one_of ''mM'', one_of ''aA'', one_of ''iI'', one_of ''lL'',
     one_of ''tT'', one_of ''oO'', Chr CHR '':'']"

definition heading_R :: re where
  "heading_R = seqs [Bol, star sp, Grp 1 (Rep (Chr CHR ''#'') 1 (Some 6) True),
     Grp 2 (lazy_plus not_nl), star (Chr CHR ''#''), star sp, block_end]"

definition lheading_R :: re where
  "lheading_R = seqs [Bol, Grp 1 (rplus not_nl), nl, star sp,
     at_least 3 (Grp 2 (Alt (Chr CHR ''='') (Chr CHR ''-''))), star sp, block_end]"

definition hr_R :: re where
  "hr_R = seqs [Bol, at_least 3 (Grp 1 (Seq (star sp) (one_of ''-*_''))), star sp, block_end]"

definition codeBlock_R :: re where
  "codeBlock_R = seqs [Bol, rplus (seqs [Rep sp 4 (Some 4) True, rplus not_nl, star nl]), block_end]"

definition fence_R :: re where
  "fence_R = seqs [Bol, star sp, Grp 1 (Alt (at_least 3 (Chr BQ)) (at_least 3 (Chr CHR ''~''))),
     star sp, opt (Seq (Grp 2 (rplus non_ws)) (star sp)), nl, Grp 3 (lazy_plus any_char), opt nl,
     Backref 1, star sp, block_end]"

definition blockQuote_R :: re where
  "blockQuote_R = seqs [Bol,
     rplus (Grp 1 (seqs [star sp, Chr CHR ''>'', rplus not_nl,
                         star (Grp 2 (Seq nl (rplus not_nl))), star nl])),
     at_least 2 nl]"

definition def_R :: re where
  "def_R = seqs [Bol, star sp, Chr CHR ''['', Grp 1 (rplus (none_of '']'')), Chr CHR '']'',
     Chr CHR '':'', star sp, opt (Chr CHR ''<''), Grp 2 (star (Cls True [CSpace, CChar CHR ''>''])),
     opt (Chr CHR ''>''),
     opt (seqs [rplus sp, one_of [DQ, CHR ''(''], Grp 3 (rplus not_nl), one_of [DQ, CHR '')'']]),
     star sp, nl, star (Seq (star sp) nl)]"

definition newline_R :: re where
  "newline_R = seqs [Bol, star (Seq nl (star sp)), nl]"

definition paragraph_R :: re where
  "paragraph_R = seqs [Bol,
     Grp 1 (rplus (Alt not_nl (Seq nl (NotAhead (Seq (star sp) nl))))), block_end]"

definition escape_R :: re where
  "escape_R = seqs [Bol, Chr BSL,
     Grp 1 (Cls True [CRange CHR ''0'' CHR ''9'', CRange CHR ''A'' CHR ''Z'',
                      CRange CHR ''a'' CHR ''z'', CSpace])]"

definition tableSeparator_R :: re where
  "tableSeparator_R = seqs [Bol, star sp, Chr CHR ''|'', star sp]"

definition autolink_R :: re where
  "autolink_R = seqs [Bol, Chr CHR ''<'',
     Grp 1 (seqs [rplus (none_of '': >''), Chr CHR '':'', Chr CHR ''/'', rplus (none_of '' >'')]),
     Chr CHR ''>'']"

definition mailto_R :: re where
  "mailto_R = seqs [Bol, Chr CHR ''<'',
     Grp 1 (seqs [rplus (none_of '' >''), Chr CHR ''@'', rplus (none_of '' >'')]), Chr CHR ''>'']"

definition url_R :: re where
  "url_R = seqs [Bol,
     Grp 1 (seqs [lit ''http'', opt (Chr CHR ''s''), lit ''://'',
                  rplus (Cls True [CSpace, CChar CHR ''<'']),
                  Cls True (map CChar (''<.,:;'' @ [DQ, SQ] @ '')]'') @ [CSpace])])]"

definition link_R :: re where
  "link_R = seqs [Bol, Chr CHR ''['', Grp 1 LINK_INSIDE, Chr CHR '']'', Chr CHR ''('',
     LINK_HREF_AND_TITLE, Chr CHR '')'']"

definition image_R :: re where
  "image_R = seqs [Bol, Chr CHR ''!'', Chr CHR ''['', Grp 1 LINK_INSIDE, Chr CHR '']'', Chr CHR ''('',
     LINK_HREF_AND_TITLE, Chr CHR '')'']"

definition reflink_R :: re where
  "reflink_R = seqs [Bol, Chr CHR ''['', Grp 1 LINK_INSIDE, Chr CHR '']'', star ws,
     Chr CHR ''['', Grp 2 (star (none_of '']'')), Chr CHR '']'']"

definition refimage_R :: re where
  "refimage_R = seqs [Bol, Chr CHR ''!'', Chr CHR ''['', Grp 1 LINK_INSIDE, Chr CHR '']'', star ws,
     Chr CHR ''['', Grp 2 (star (none_of '']'')), Chr CHR '']'']"

definition em_R :: re where
  "em_R = Alt
     (seqs [Bol, WordB, Chr CHR ''_'',
            Grp 1 (lazy_plus (alts [lit ''__'', Seq (Chr BSL) any_char,
                                    Cls True [CChar BSL, CChar CHR ''_'']])),
            Chr CHR ''_'', WordB])
     (seqs [Bol, Chr CHR ''*'', Ahead non_ws,
            Grp 2 (lazy_plus (alts [lit ''**'', Seq (Chr BSL) any_char,
                                    Seq (rplus ws)
                                      (alts [Seq (Chr BSL) any_char,
                                             Cls True [CSpace, CChar CHR ''*'', CChar BSL],
                                             lit ''**'']),
                                    Cls True [CSpace, CChar CHR ''*'', CChar BSL]])),
            Chr CHR ''*'', NotAhead (Chr CHR ''*'')])"

definition strong_R :: re where
  "strong_R = seqs [Bol, lit ''**'',
     Grp 1 (lazy_plus (Alt (Seq (Chr BSL) any_char) (Cls True [CChar BSL]))),
     lit ''**'', NotAhead (Chr CHR ''*'')]"

definition u_R :: re where
  "u_R = seqs [Bol, lit ''__'',
     Grp 1 (lazy_plus (Alt (Seq (Chr BSL) any_char) (Cls True [CChar BSL]))),
     lit ''__'', NotAhead (Chr CHR ''_'')]"

definition del_R :: re where
  "del_R = seqs [Bol, lit ''~~'', Ahead non_ws,
     Grp 1 (lazy_plus (alts [Seq (Chr BSL) any_char,
                             Seq (Chr CHR ''~'') (NotAhead (Chr CHR ''~'')),
                             Cls True [CSpace, CChar CHR ''~'', CChar BSL],
                             Seq ws (NotAhead (lit ''~~''))])),
     lit ''~~'']"

definition inlineCode_R :: re where
  "inlineCode_R = seqs [Bol, Grp 1 (rplus (Chr BQ)),
     Grp 2 (Seq (lazy_star any_char) (Cls True [CChar BQ])), Backref 1, NotAhead (Chr BQ)]"

definition br_R :: re where
  "br_R = seqs [Bol, at_least 2 sp, nl]"

definition text_R :: re where
  "text_R = seqs [Bol, lazy_plus any_char,
     Ahead (alts [Cls True [CRange CHR ''0'' CHR ''9'', CRange CHR ''A'' CHR ''Z'',
                            CRange CHR ''a'' CHR ''z'', CSpace, CRange (CHR 0xC0) (CHR 0xFF)],
                  lit [NL, NL],
                  seqs [at_least 2 sp, nl],
                  seqs [rplus (Cls False [CWord]), Chr CHR '':'', non_ws],
                  Eol])]"

subsection \<open>The builders that the model leaves open\<close>

text \<open>
  The \<open>parse\<close> functions of the table rules, the list rule, the code block, the block
  quote and the inline code rewrite their capture with further patterns (\<open>replace\<close>,
  \<open>split\<close>, \<open>match\<close> with the flags \<open>g\<close> and \<open>m\<close>). They are parameters of the rule set:
  what is proved of \<open>defaultRules\<close> holds whatever these six builders do.
\<close>

type_synonym builder = "capture \<Rightarrow> parser \<Rightarrow> world \<Rightarrow> (error + nat \<times> world) option"

record builders =
  parseNpTable :: builder
  parseTable :: builder
  parse_codeBlock :: builder
  parse_blockQuote :: builder
  parse_list :: builder
  parse_inlineCode :: builder

subsection \<open>The rules\<close>

definition heading_rule :: rule where
  "heading_rule =
     \<lparr>name = ''heading'',
      match = blockRegex heading_R,
      parse = (\<lambda>capture p w.
        case (grp capture 1, grp capture 2) of
          (Some c1, Some c2) \<Rightarrow>
            (case parseInline p (Some (trim c2)) w of
               None \<Rightarrow> None
             | Some (Inl e) \<Rightarrow> Some (Inl e)
             | Some (Inr (result, w')) \<Rightarrow>
                 build [(''level'', JNum (int (length c1))), (''content'', nodes result)] w')
        | _ \<Rightarrow> Some (Inl TypeError)),
      quality = None\<rparr>"

definition nptable_rule :: "builders \<Rightarrow> rule" where
  "nptable_rule ext =
     \<lparr>name = ''nptable'', match = blockRegex NPTABLE_REGEX, parse = parseNpTable ext,
      quality = None\<rparr>"

definition lheading_rule :: rule where
  "lheading_rule =
     \<lparr>name = ''lheading'',
      match = blockRegex lheading_R,
      parse = (\<lambda>capture p w.
        case parseInline p (grp capture 1) w of
          None \<Rightarrow> None
        | Some (Inl e) \<Rightarrow> Some (Inl e)
        | Some (Inr (result, w')) \<Rightarrow>
            build [(''type'', JStr ''heading''),
                   (''level'', JNum (if grp capture 2 = Some ''='' then 1 else 2)),
                   (''content'', nodes result)] w'),
      quality = None\<rparr>"

definition hr_rule :: rule where
  "hr_rule = \<lparr>name = ''hr'', match = blockRegex hr_R, parse = ignoreCapture, quality = None\<rparr>"

definition codeBlock_rule :: "builders \<Rightarrow> rule" where
  "codeBlock_rule ext =
     \<lparr>name = ''codeBlock'', match = blockRegex codeBlock_R, parse = parse_codeBlock ext,
      quality = None\<rparr>"

definition fence_rule :: rule where
  "fence_rule =
     \<lparr>name = ''fence'',
      match = blockRegex fence_R,
      parse = (\<lambda>capture p w.
        build [(''type'', JStr ''codeBlock''),
               (''lang'', case grp capture 2 of Some (a # s) \<Rightarrow> JStr (a # s) | _ \<Rightarrow> JUndefined),
               (''content'', grp_val capture 3)] w),
      quality = None\<rparr>"

definition blockQuote_rule :: "builders \<Rightarrow> rule" where
  "blockQuote_rule ext =
     \<lparr>name = ''blockQuote'', match = blockRegex blockQuote_R, parse = parse_blockQuote ext,
      quality = None\<rparr>"

text \<open>
  The \<open>match\<close> of the list rule looks behind: the previous capture has to end at the
  start of a line, and the spaces it ends with count as the indentation of the bullet.
\<close>

definition prevCaptureStr :: "world \<Rightarrow> string" where
  "prevCaptureStr w =
     (case obj_get (pstate w) ''prevCapture'' of
        JUndefined \<Rightarrow> []
      | JNull \<Rightarrow> []
      | JCap c \<Rightarrow> to_string (grp_val c 0)
      | JStr (a # s) \<Rightarrow> [a]
      | JArr (v # vs) \<Rightarrow> to_string v
      | _ \<Rightarrow> ''undefined'')"

definition list_match :: "string \<Rightarrow> world \<Rightarrow> capture option" where
  "list_match source w =
     (let isStartOfLineCapture = exec LIST_LOOKBEHIND_R (prevCaptureStr w);
          isListBlock = (truthy (obj_get (pstate w) ''_list'') \<or>
                         \<not> truthy (obj_get (pstate w) ''inline''))
      in case isStartOfLineCapture of
           None \<Rightarrow> None
         | Some c \<Rightarrow>
             if isListBlock then exec LIST_R (to_string (grp_val c 1) @ source) else None)"

definition list_rule :: "builders \<Rightarrow> rule" where
  "list_rule ext =
     \<lparr>name = ''list'', match = list_match, parse = parse_list ext, quality = None\<rparr>"

definition def_rule :: rule where
  "def_rule = \<lparr>name = ''def'', match = blockRegex def_R, parse = def_parse, quality = None\<rparr>"

definition table_rule :: "builders \<Rightarrow> rule" where
  "table_rule ext =
     \<lparr>name = ''table'', match = blockRegex TABLE_REGEX, parse = parseTable ext, quality = None\<rparr>"

definition newline_rule :: rule where
  "newline_rule =
     \<lparr>name = ''newline'', match = blockRegex newline_R, parse = ignoreCapture, quality = None\<rparr>"

definition paragraph_rule :: rule where
  "paragraph_rule =
     \<lparr>name = ''paragraph'', match = blockRegex paragraph_R, parse = parseCaptureInline,
      quality = None\<rparr>"

definition escape_rule :: rule where
  "escape_rule =
     \<lparr>name = ''escape'',
      match = inlineRegex escape_R,
      parse = (\<lambda>capture p w.
        build [(''type'', JStr ''text''), (''content'', grp_val capture 1)] w),
      quality = None\<rparr>"

definition tableSeparator_rule :: rule where
  "tableSeparator_rule =
     \<lparr>name = ''tableSeparator'',
      match = (\<lambda>source w. if \<not> truthy (obj_get (pstate w) ''inTable'') then None
                           else exec tableSeparator_R source),
      parse = (\<lambda>capture p w. build [(''type'', JStr ''tableSeparator'')] w),
      quality = None\<rparr>"

text \<open>
  A link whose text is its target: the inner node \<open>{ type: 'text', content }\<close> and the
  link node around it, with the further properties \<open>extra\<close>.
\<close>

definition link_to :: "jsval \<Rightarrow> jsval \<Rightarrow> obj \<Rightarrow> world \<Rightarrow> (error + nat \<times> world) option" where
  "link_to content target extra w =
     (case alloc [(''type'', JStr ''text''), (''content'', content)] w of
        (a, w') \<Rightarrow>
          build ([(''type'', JStr ''link''), (''content'', nodes [a]), (''target'', target)] @ extra) w')"

definition autolink_rule :: rule where
  "autolink_rule =
     \<lparr>name = ''autolink'',
      match = inlineRegex autolink_R,
      parse = (\<lambda>capture p w. link_to (grp_val capture 1) (grp_val capture 1) [] w),
      quality = None\<rparr>"

definition mailto_rule :: rule where
  "mailto_rule =
     \<lparr>name = ''mailto'',
      match = inlineRegex mailto_R,
      parse = (\<lambda>capture p w.
        link_to (grp_val capture 1)
          (if exec AUTOLINK_MAILTO_CHECK_R (to_string (grp_val capture 1)) = None
           then js_add (JStr ''mailto:'') (grp_val capture 1)
           else grp_val capture 1) [] w),
      quality = None\<rparr>"

definition url_rule :: rule where
  "url_rule =
     \<lparr>name = ''url'',
      match = inlineRegex url_R,
      parse = (\<lambda>capture p w.
        link_to (grp_val capture 1) (grp_val capture 1) [(''title'', JUndefined)] w),
      quality = None\<rparr>"

definition link_rule :: rule where
  "link_rule =
     \<lparr>name = ''link'',
      match = inlineRegex link_R,
      parse = (\<lambda>capture p w.
        case call_parse p (grp capture 1) w of
          None \<Rightarrow> None
        | Some (Inl e) \<Rightarrow> Some (Inl e)
        | Some (Inr (result, w')) \<Rightarrow>
            (case grp capture 2 of
               None \<Rightarrow> Some (Inl TypeError)
             | Some t \<Rightarrow>
                 build [(''content'', nodes result), (''target'', JStr (unescapeUrl t)),
                        (''title'', grp_val capture 3)] w')),
      quality = None\<rparr>"

definition image_rule :: rule where
  "image_rule =
     \<lparr>name = ''image'',
      match = inlineRegex image_R,
      parse = (\<lambda>capture p w.
        case grp capture 2 of
          None \<Rightarrow> Some (Inl TypeError)
        | Some t \<Rightarrow>
            build [(''alt'', grp_val capture 1), (''target'', JStr (unescapeUrl t)),
                   (''title'', grp_val capture 3)] w),
      quality = None\<rparr>"

definition reflink_rule :: rule where
  "reflink_rule =
     \<lparr>name = ''reflink'',
      match = inlineRegex reflink_R,
      parse = (\<lambda>capture p w.
        case call_parse p (grp capture 1) w of
          None \<Rightarrow> None
        | Some (Inl e) \<Rightarrow> Some (Inl e)
        | Some (Inr (result, w')) \<Rightarrow>
            (case alloc [(''type'', JStr ''link''), (''content'', nodes result)] w' of
               (refNode, w'') \<Rightarrow> parseRef capture w'' refNode)),
      quality = None\<rparr>"

definition refimage_rule :: rule where
  "refimage_rule =
     \<lparr>name = ''refimage'',
      match = inlineRegex refimage_R,
      parse = (\<lambda>capture p w.
        case alloc [(''type'', JStr ''image''), (''alt'', grp_val capture 1)] w of
          (refNode, w') \<Rightarrow> parseRef capture w' refNode),
      quality = None\<rparr>"

text \<open>
  The scorers: the length of the match plus 0.2, 0.1 and 0. The sums are compared as
  rationals; they differ by a tenth or more, far above the rounding of the floating
  point numbers.
\<close>

definition by_length :: "rat \<Rightarrow> capture \<Rightarrow> world \<Rightarrow> jsnum" where
  "by_length bonus capture w =
     (case grp capture 0 of None \<Rightarrow> NaN | Some s \<Rightarrow> Fin (of_nat (length s) + bonus))"

definition em_rule :: rule where
  "em_rule =
     \<lparr>name = ''em'',
      match = inlineRegex em_R,
      parse = (\<lambda>capture p w.
        case call_parse p (grp_or capture 2 1) w of
          None \<Rightarrow> None
        | Some (Inl e) \<Rightarrow> Some (Inl e)
        | Some (Inr (result, w')) \<Rightarrow> build [(''content'', nodes result)] w'),
      quality = Some (by_length (2 / 10))\<rparr>"

definition strong_rule :: rule where
  "strong_rule =
     \<lparr>name = ''strong'', match = inlineRegex strong_R, parse = parseCaptureInline,
      quality = Some (by_length (1 / 10))\<rparr>"

definition u_rule :: rule where
  "u_rule = \<lparr>name = ''u'', match = inlineRegex u_R, parse = parseCaptureInline,
        quality = Some (by_length 0)\<rparr>"

definition del_rule :: rule where
  "del_rule = \<lparr>name = ''del'', match = inlineRegex del_R, parse = parseCaptureInline,
          quality = None\<rparr>"

definition inlineCode_rule :: "builders \<Rightarrow> rule" where
  "inlineCode_rule ext =
     \<lparr>name = ''inlineCode'', match = inlineRegex inlineCode_R, parse = parse_inlineCode ext,
      quality = None\<rparr>"

definition br_rule :: rule where
  "br_rule = \<lparr>name = ''br'', match = anyScopeRegex br_R, parse = ignoreCapture, quality = None\<rparr>"

definition text_rule :: rule where
  "text_rule =
     \<lparr>name = ''text'',
      match = anyScopeRegex text_R,
      parse = (\<lambda>capture p w. build [(''content'', grp_val capture 0)] w),
      quality = None\<rparr>"

text \<open>\<open>defaultRules\<close>: the rules in the order of the \<open>add\<close> calls.\<close>

definition defaultRules :: "builders \<Rightarrow> rule list" where
  "defaultRules ext =
     [heading_rule, nptable_rule ext, lheading_rule, hr_rule, codeBlock_rule ext, fence_rule,
      blockQuote_rule ext, list_rule ext, def_rule, table_rule ext, newline_rule, paragraph_rule,
      escape_rule, tableSeparator_rule, autolink_rule, mailto_rule, url_rule, link_rule,
      image_rule, reflink_rule, refimage_rule, em_rule, strong_rule, u_rule, del_rule,
      inlineCode_rule ext, br_rule, text_rule]"

section \<open>What the theorems speak about\<close>

text \<open>
  The names of a registry as the model reads them. \<open>toRuleObject\<close> keys a plain object by
  the names and \<open>Object.keys\<close> lists them: JavaScript lists keys that are array indices
  first, treats the key \<open>__proto__\<close> apart, and past the end of \<open>ruleList\<close> the walk reads
  \<open>rules[undefined]\<close>, the rule named \<open>undefined\<close> if there is one. The model takes the keys
  in the order of the registry and ends the walk at the end of the list, which is what
  the code does when the names are distinct and none of them is of these kinds.
\<close>

definition plain_name :: "string \<Rightarrow> bool" where
  "plain_name n \<longleftrightarrow>
     n \<noteq> ''undefined'' \<and> n \<noteq> ''__proto__'' \<and>
     \<not> (n \<noteq> [] \<and> list_all (\<lambda>c. c \<in> set ''0123456789'') n)"

definition plain_names :: "rule list \<Rightarrow> bool" where
  "plain_names rl \<longleftrightarrow> distinct (map name rl) \<and> list_all (\<lambda>r. plain_name (name r)) rl"

text \<open>
  The score of a match as the claims read it: the number that the scorer declared by the
  rule returns for the capture, and 0 for a rule that declares no scorer.
\<close>

definition declared_score :: "rule \<Rightarrow> capture \<Rightarrow> world \<Rightarrow> jsnum" where
  "declared_score r c w = (case quality r of None \<Rightarrow> Fin 0 | Some q \<Rightarrow> q c w)"

text \<open>
  Rule \<open>k\<close> wins among the first \<open>m\<close> rules of \<open>rl\<close>: it matches, no match among them
  scores higher, and every match before it scores strictly lower.
\<close>

definition wins :: "string \<Rightarrow> world \<Rightarrow> rule list \<Rightarrow> nat \<Rightarrow> nat \<Rightarrow> bool" where
  "wins source w rl m k \<longleftrightarrow>
     k < m \<and>
     (\<exists>c. match (rl ! k) source w = Some c \<and>
          (\<forall>j<m. \<forall>c'. match (rl ! j) source w = Some c' \<longrightarrow>
             num_le (declared_score (rl ! j) c' w) (declared_score (rl ! k) c w) \<and>
             (j < k \<longrightarrow> \<not> num_le (declared_score (rl ! k) c w) (declared_score (rl ! j) c' w))))"

text \<open>The walk's best match is the match of rule \<open>k\<close>, held with its score.\<close>

definition held :: "string \<Rightarrow> world \<Rightarrow> rule list \<Rightarrow> best \<Rightarrow> nat \<Rightarrow> bool" where
  "held source w rl b k \<longleftrightarrow>
     best_ruleType b = Some (name (rl ! k)) \<and> best_rule b = Some (rl ! k) \<and>
     best_capture b = match (rl ! k) source w \<and>
     (\<exists>c. match (rl ! k) source w = Some c \<and> best_quality b = declared_score (rl ! k) c w)"

text \<open>The \<open>type\<close> of a node, and two neighbours of a node sequence that are both text.\<close>

definition node_type :: "world \<Rightarrow> nat \<Rightarrow> jsval" where
  "node_type w a = get_field w a ''type''"


text \<open>
  From \<open>w\<close> to \<open>w'\<close> no node is lost and no node that has a type changes it. A rule is
  \<open>type_stable\<close> when its \<open>parse\<close> returns a node of the store and, given a parser that
  keeps the types, keeps them too.
\<close>

definition keeps_types :: "world \<Rightarrow> world \<Rightarrow> bool" where
  "keeps_types w w' \<longleftrightarrow>
     fresh w \<le> fresh w' \<and>
     (\<forall>a<fresh w. truthy (node_type w a) \<longrightarrow> node_type w' a = node_type w a)"



text \<open>
  The forward references of a document as the two builders meet them, one after the
  other: a reference is the call \<open>parseRef(capture, state, node)\<close> on the node object
  that a rule has just made, a definition is the \<open>parse\<close> of the \<open>def\<close> rule. \<open>mentions\<close>
  runs them in turn and returns the nodes of the references.
\<close>

datatype mention = Reference capture obj | Definition capture

fun mentions :: "mention list \<Rightarrow> world \<Rightarrow> (error + nat list \<times> world) option" where
  "mentions [] w = Some (Inr ([], w))"
| "mentions (Reference c ob # ms) w =
     (case alloc ob w of
        (refNode, w1) \<Rightarrow>
          (case parseRef c w1 refNode of
             None \<Rightarrow> None
           | Some (Inl e) \<Rightarrow> Some (Inl e)
           | Some (Inr (a, w2)) \<Rightarrow>
               (case mentions ms w2 of
                  None \<Rightarrow> None
                | Some (Inl e) \<Rightarrow> Some (Inl e)
                | Some (Inr (as, w3)) \<Rightarrow> Some (Inr (a # as, w3)))))"
| "mentions (Definition c # ms) w =
     (case def_parse c (\<lambda>src w'. None) w of
        None \<Rightarrow> None
      | Some (Inl e) \<Rightarrow> Some (Inl e)
      | Some (Inr (a, w1)) \<Rightarrow> mentions ms w1)"

definition references :: "(capture \<times> obj) list \<Rightarrow> mention list" where
  "references rs = map (\<lambda>(c, ob). Reference c ob) rs"

text \<open>
  The name that a reference and a definition are filed under, and the names that no
  member of \<open>Object.prototype\<close> bears.
\<close>

definition ref_key :: "capture \<Rightarrow> string option" where
  "ref_key c = map_option (\<lambda>s. toLowerCase (collapse_spaces s)) (grp_or c 2 1)"

definition def_key :: "capture \<Rightarrow> string option" where
  "def_key c = map_option (\<lambda>s. toLowerCase (collapse_spaces s)) (grp c 1)"

definition ordinary_key :: "string \<Rightarrow> bool" where
  "ordinary_key k \<longleftrightarrow> k \<notin> set Object_prototype"

text \<open>
  The nodes \<open>ns\<close> wait for the definition of \<open>x\<close> (\<open>state._refs[x]\<close> lists them, or there is
  no table yet and no node), and \<open>x\<close> is defined with a target and a title.
\<close>

definition pending :: "world \<Rightarrow> string \<Rightarrow> nat list \<Rightarrow> bool" where
  "pending w x ns \<longleftrightarrow>
     (ns = [] \<and> obj_get (pstate w) ''_refs'' = JUndefined) \<or>
     (\<exists>ob. obj_get (pstate w) ''_refs'' = JObj ob \<and> dict_get ob x = JArr (map JRef ns))"

definition defined_as :: "world \<Rightarrow> string \<Rightarrow> jsval \<Rightarrow> jsval \<Rightarrow> bool" where
  "defined_as w x target title \<longleftrightarrow>
     (\<exists>ob. obj_get (pstate w) ''_defs'' = JObj ob \<and>
           dict_get ob x = JObj [(''target'', target), (''title'', title)])"

section \<open>Rules for the examples\<close>

text \<open>The world before the first parse: an empty state object and no node.\<close>

definition w0 :: world where
  "w0 = \<lparr>pstate = [], heap = (\<lambda>_. []), fresh = 0\<rparr>"

text \<open>
  A rule that matches the literal \<open>pre\<close> at the cursor and builds the node
  \<open>{ content: pre }\<close>; \<open>idx\<close> is the \<open>index\<close> property of its capture and \<open>q\<close> its scorer.
\<close>

definition prefix_rule ::
  "string \<Rightarrow> string \<Rightarrow> int option \<Rightarrow> (capture \<Rightarrow> world \<Rightarrow> jsnum) option \<Rightarrow> rule" where
  "prefix_rule nm pre idx q =
     \<lparr>name = nm,
      match = (\<lambda>source w. if take (length pre) source = pre
                           then Some \<lparr>groups = [Some pre], index = idx\<rparr> else None),
      parse = (\<lambda>c p w. Some (Inr (alloc [(''content'', JStr pre)] w))),
      quality = q\<rparr>"

text \<open>
  Two rules that share a node through the state: \<open>keep_rule\<close> builds \<open>{ type: 'mark' }\<close>
  for a \<open>k\<close> and stores the reference in \<open>state.saved\<close>; \<open>retype_rule\<close> builds such a node
  for an \<open>r\<close> and sets the \<open>type\<close> of the saved node to \<open>text\<close>.
\<close>

definition keep_rule :: rule where
  "keep_rule =
     \<lparr>name = ''keep'',
      match = (\<lambda>source w. if take 1 source = ''k''
                           then Some \<lparr>groups = [Some ''k''], index = Some 0\<rparr> else None),
      parse = (\<lambda>c p w. case alloc [(''type'', JStr ''mark'')] w of
                 (a, w') \<Rightarrow> Some (Inr (a, w'\<lparr>pstate := obj_set (pstate w') ''saved'' (JRef a)\<rparr>))),
      quality = None\<rparr>"

definition retype_rule :: rule where
  "retype_rule =
     \<lparr>name = ''retype'',
      match = (\<lambda>source w. if take 1 source = ''r''
                           then Some \<lparr>groups = [Some ''r''], index = Some 0\<rparr> else None),
      parse = (\<lambda>c p w. case alloc [(''type'', JStr ''mark'')] w of
                 (a, w') \<Rightarrow>
                   (case obj_get (pstate w') ''saved'' of
                      JRef s \<Rightarrow> Some (Inr (a, set_field w' s ''type'' (JStr ''text'')))
                    | _ \<Rightarrow> Some (Inr (a, w')))),
      quality = None\<rparr>"

text \<open>Rules that all match a star; three of them declare a scorer.\<close>

definition em_example :: rule where
  "em_example = prefix_rule ''em'' ''*'' (Some 0) (Some (\<lambda>c w. Fin 2))"

definition strong_example :: rule where
  "strong_example = prefix_rule ''strong'' ''*'' (Some 0) (Some (\<lambda>c w. Fin 5))"

definition u_example :: rule where
  "u_example = prefix_rule ''u'' ''*'' (Some 0) (Some (\<lambda>c w. Fin 5))"

definition star_example :: rule where
  "star_example = prefix_rule ''star'' ''*'' (Some 0) None"

text \<open>A rule for the star whose scorer returns \<open>NaN\<close>.\<close>

definition nan_example :: rule where
  "nan_example = prefix_rule ''nan'' ''*'' (Some 0) (Some (\<lambda>c w. NaN))"

text \<open>
  A rule whose pattern has no start anchor, as \<open>/b/.exec(source)\<close>: it finds the first
  \<open>b\<close> anywhere and reports where in \<open>index\<close>. And a hand-written match function that
  returns the plain array \<open>['b']\<close> when the source has a \<open>b\<close>.
\<close>

definition find_rule :: rule where
  "find_rule =
     \<lparr>name = ''find'',
      match = (\<lambda>source w. case findIndex (\<lambda>c. c = CHR ''b'') source of
                 None \<Rightarrow> None
               | Some i \<Rightarrow> Some \<lparr>groups = [Some ''b''], index = Some (int i)\<rparr>),
      parse = (\<lambda>c p w. Some (Inr (alloc [] w))),
      quality = None\<rparr>"

definition array_rule :: rule where
  "array_rule =
     \<lparr>name = ''array'',
      match = (\<lambda>source w. if CHR ''b'' \<in> set source
                           then Some \<lparr>groups = [Some ''b''], index = None\<rparr> else None),
      parse = (\<lambda>c p w. Some (Inr (alloc [] w))),
      quality = None\<rparr>"

text \<open>A rule for single letters \<open>a\<close> that builds text nodes, and one for line ends.\<close>

definition letter_example :: rule where
  "letter_example = prefix_rule ''text'' ''a'' (Some 0) None"

definition newline_example :: rule where
  "newline_example = prefix_rule ''newline'' [NL] (Some 0) None"

text \<open>
  Three documents: a reference before its definition, the definition first, and the
  first one again with a name that \<open>Object.prototype\<close> bears.
\<close>

definition doc_ref_first :: string where
  "doc_ref_first = ''[a][x]'' @ [NL, NL] @ ''[x]: /url '' @ [DQ] @ ''t'' @ [DQ]"

definition doc_def_first :: string where
  "doc_def_first = ''[x]: /url '' @ [DQ] @ ''t'' @ [DQ, NL, NL] @ ''[a][x]''"

definition doc_ctor_first :: string where
  "doc_ctor_first =
     ''[a][constructor]'' @ [NL, NL] @ ''[constructor]: /url '' @ [DQ] @ ''t'' @ [DQ]"

text \<open>
  The sources that the parse loop meets on these documents: each document with the two
  newlines that \<open>outerParse\<close> appends, and what is left or handed on after each match.
\<close>

definition src_ref_first :: string where
  "src_ref_first = ''[a][x]'' @ [NL, NL] @ ''[x]: /url '' @ [DQ] @ ''t'' @ [DQ, NL, NL]"

definition src_def_first :: string where
  "src_def_first = ''[x]: /url '' @ [DQ] @ ''t'' @ [DQ, NL, NL] @ ''[a][x]'' @ [NL, NL]"

definition src_def :: string where
  "src_def = ''[x]: /url '' @ [DQ] @ ''t'' @ [DQ, NL, NL]"

definition src_par :: string where
  "src_par = ''[a][x]'' @ [NL, NL]"

definition src_link :: string where
  "src_link = ''[a][x]''"

definition src_a :: string where
  "src_a = ''a''"

definition src_ctor_first :: string where
  "src_ctor_first =
     ''[a][constructor]'' @ [NL, NL] @ ''[constructor]: /url '' @ [DQ] @ ''t'' @ [DQ, NL, NL]"

definition src_ctor_par :: string where
  "src_ctor_par = ''[a][constructor]'' @ [NL, NL]"

definition src_ctor_link :: string where
  "src_ctor_link = ''[a][constructor]''"

section \<open>Objects and fields\<close>

lemma map_of_obj_set: "map_of (obj_set ob k v) k' = (if k' = k then Some v else map_of ob k')"
  by (induction ob) auto

lemma obj_get_obj_set: "obj_get (obj_set ob k v) k' = (if k' = k then v else obj_get ob k')"
  by (simp add: obj_get_def map_of_obj_set)

lemma obj_set_fresh_key: "k \<notin> fst ` set ob \<Longrightarrow> obj_set ob k v = ob @ [(k, v)]"
  by (induction ob) auto

lemma get_field_set_field:
  "get_field (set_field w a k v) a' k' = (if a' = a \<and> k' = k then v else get_field w a' k')"
  by (simp add: get_field_def set_field_def obj_get_obj_set)

lemma get_field_set_prevCapture [simp]: "get_field (set_prevCapture v w) a k = get_field w a k"
  by (simp add: get_field_def set_prevCapture_def)

lemma fresh_set_field [simp]: "fresh (set_field w a k v) = fresh w"
  by (simp add: set_field_def)

lemma fresh_set_prevCapture [simp]: "fresh (set_prevCapture v w) = fresh w"
  by (simp add: set_prevCapture_def)



lemma toRuleObject_acc:
  "distinct (map name rl) \<Longrightarrow> fst ` set acc \<inter> name ` set rl = {} \<Longrightarrow>
   foldl (\<lambda>result r. obj_set result (name r) r) acc rl = acc @ map (\<lambda>r. (name r, r)) rl"
proof (induction rl arbitrary: acc)
  case Nil
  then show ?case by simp
next
  case (Cons r rl)
  have fresh_key: "name r \<notin> fst ` set acc" using Cons.prems(2) by auto
  have "fst ` set (acc @ [(name r, r)]) \<inter> name ` set rl = {}"
    using Cons.prems by auto
  then show ?case
    using Cons.IH[of "acc @ [(name r, r)]"] Cons.prems(1)
    by (simp add: obj_set_fresh_key[OF fresh_key])
qed

lemma toRuleObject_plain:
  "plain_names rl \<Longrightarrow> toRuleObject rl = map (\<lambda>r. (name r, r)) rl"
  using toRuleObject_acc[of rl "[]"] by (simp add: toRuleObject_def plain_names_def)

section \<open>The rule walk\<close>

declare walk.simps [simp del]

lemma consult_i [simp]: "best_i (consult source w b cur) = best_i b"
  by (simp add: consult_def split: option.splits)

lemma walk_Nil: "walk source w cur [] b = (consult source w b cur)\<lparr>best_i := best_i b + 1\<rparr>"
  by (simp add: walk.simps[of _ _ _ "[]"] Let_def)

lemma walk_Cons:
  "walk source w cur (p # rest) b =
     (if best_capture (consult source w b cur) = None \<or> quality (snd p) \<noteq> None
      then walk source w p rest ((consult source w b cur)\<lparr>best_i := best_i b + 1\<rparr>)
      else (consult source w b cur)\<lparr>best_i := best_i b + 1\<rparr>)"
  by (simp add: walk.simps[of _ _ cur "p # rest"] Let_def)

lemma walk_stops:
  "best_capture (walk source w cur pre b) \<noteq> None \<Longrightarrow> quality (snd r) = None \<Longrightarrow>
   walk source w cur (pre @ r # post) b = walk source w cur pre b"
proof (induction pre arbitrary: cur b)
  case Nil
  then show ?case by (auto simp: walk_Nil walk_Cons)
next
  case (Cons p pre)
  let ?b2 = "(consult source w b cur)\<lparr>best_i := best_i b + 1\<rparr>"
  show ?case
  proof (cases "best_capture (consult source w b cur) = None \<or> quality (snd p) \<noteq> None")
    case True
    then have "walk source w cur (p # pre) b = walk source w p pre ?b2"
      and "walk source w cur ((p # pre) @ r # post) b = walk source w p (pre @ r # post) ?b2"
      by (simp_all add: walk_Cons)
    then show ?thesis using Cons.IH[of p ?b2] Cons.prems by simp
  next
    case False
    then have "best_capture (consult source w b cur) \<noteq> None" "quality (snd p) = None"
      by simp_all
    then show ?thesis by (auto simp: walk_Cons)
  qed
qed

text \<open>A walk that has come to the end of \<open>pre\<close> reads the loop condition on the next rule.\<close>

lemma walk_continues:
  "best_i (walk source w cur pre b) = best_i b + Suc (length pre) \<Longrightarrow>
   walk source w cur (pre @ r # post) b =
     (if best_capture (walk source w cur pre b) = None \<or> quality (snd r) \<noteq> None
      then walk source w r post (walk source w cur pre b)
      else walk source w cur pre b)"
proof (induction pre arbitrary: cur b)
  case Nil
  then show ?case by (simp add: walk_Nil walk_Cons)
next
  case (Cons p pre)
  let ?b2 = "(consult source w b cur)\<lparr>best_i := best_i b + 1\<rparr>"
  show ?case
  proof (cases "best_capture (consult source w b cur) = None \<or> quality (snd p) \<noteq> None")
    case True
    then have eq: "walk source w cur (p # pre) b = walk source w p pre ?b2"
      and eq': "walk source w cur ((p # pre) @ r # post) b = walk source w p (pre @ r # post) ?b2"
      by (simp_all add: walk_Cons)
    have "best_i (walk source w p pre ?b2) = best_i ?b2 + Suc (length pre)"
      using Cons.prems eq by simp
    then show ?thesis unfolding eq eq' by (rule Cons.IH)
  next
    case False
    then have "walk source w cur (p # pre) b = ?b2" by (auto simp: walk_Cons)
    then show ?thesis using Cons.prems by simp
  qed
qed

lemma walk_i_le: "best_i (walk source w cur rest b) \<le> best_i b + Suc (length rest)"
proof (induction rest arbitrary: cur b)
  case Nil
  then show ?case by (simp add: walk_Nil)
next
  case (Cons p rest)
  have "best_i (walk source w p rest ((consult source w b cur)\<lparr>best_i := best_i b + 1\<rparr>))
        \<le> best_i b + 1 + Suc (length rest)"
    using Cons[of p "(consult source w b cur)\<lparr>best_i := best_i b + 1\<rparr>"] by simp
  then show ?case by (simp add: walk_Cons)
qed

lemma walk_none:
  "\<forall>p \<in> set (cur # rest). match (snd p) source w = None \<Longrightarrow> best_capture b = None \<Longrightarrow>
   best_capture (walk source w cur rest b) = None"
proof (induction rest arbitrary: cur b)
  case Nil
  then show ?case by (simp add: walk_Nil consult_def)
next
  case (Cons p rest)
  have c: "consult source w b cur = b" using Cons.prems by (simp add: consult_def)
  have "best_capture (walk source w p rest (b\<lparr>best_i := best_i b + 1\<rparr>)) = None"
    using Cons.prems by (intro Cons.IH) auto
  then show ?case using Cons.prems by (simp add: walk_Cons c)
qed

lemma consult_upd_i:
  "consult source w (b\<lparr>best_i := x\<rparr>) cur = (consult source w b cur)\<lparr>best_i := x\<rparr>"
  by (simp add: consult_def split: option.splits)

lemma foldl_consult_upd_i:
  "foldl (consult source w) (b\<lparr>best_i := x\<rparr>) ps = (foldl (consult source w) b ps)\<lparr>best_i := x\<rparr>"
  by (induction ps arbitrary: b) (simp_all add: consult_upd_i)

lemma foldl_consult_i [simp]: "best_i (foldl (consult source w) b ps) = best_i b"
  by (induction ps arbitrary: b) simp_all

text \<open>
  The walk asks a prefix of the rules, one after the other, and \<open>i\<close> counts them; it ends
  at the end of the order or in front of a rule without scorer.
\<close>

lemma walk_fold:
  "\<exists>m. 0 < m \<and> m \<le> Suc (length rest) \<and>
       (m = Suc (length rest) \<or> quality (snd (rest ! (m - 1))) = None) \<and>
       walk source w cur rest b =
         (foldl (consult source w) b (take m (cur # rest)))\<lparr>best_i := best_i b + m\<rparr>"
proof (induction rest arbitrary: cur b)
  case Nil
  show ?case by (rule exI[of _ 1]) (simp add: walk_Nil)
next
  case (Cons p rest)
  let ?b2 = "(consult source w b cur)\<lparr>best_i := best_i b + 1\<rparr>"
  show ?case
  proof (cases "best_capture (consult source w b cur) = None \<or> quality (snd p) \<noteq> None")
    case True
    obtain m where m: "0 < m" "m \<le> Suc (length rest)"
      "m = Suc (length rest) \<or> quality (snd (rest ! (m - 1))) = None"
      "walk source w p rest ?b2 =
         (foldl (consult source w) ?b2 (take m (p # rest)))\<lparr>best_i := best_i ?b2 + m\<rparr>"
      using Cons[of p ?b2] by blast
    have nxt: "(p # rest) ! m = rest ! (m - 1)" using m(1) by (cases m) simp_all
    show ?thesis
      apply (rule exI[of _ "Suc m"])
      using True m nxt by (simp add: walk_Cons foldl_consult_upd_i)
  next
    case False
    then have "best_capture (consult source w b cur) \<noteq> None" "quality (snd p) = None"
      by simp_all
    then show ?thesis
      by (intro exI[of _ 1]) (auto simp: walk_Cons)
  qed
qed




subsection \<open>The order on scores\<close>

lemma num_le_total: "a \<noteq> NaN \<Longrightarrow> b \<noteq> NaN \<Longrightarrow> num_le a b \<or> num_le b a"
  by (cases a; cases b) auto

lemma num_le_trans: "num_le a b \<Longrightarrow> num_le b c \<Longrightarrow> num_le a c"
  by (cases a; cases b; cases c) auto

lemma num_le_refl: "a \<noteq> NaN \<Longrightarrow> num_le a a"
  by (cases a) auto

lemma num_le_NaN [simp]: "\<not> num_le a NaN"
  by (cases a) auto

text \<open>The score that the walk compares is the declared one.\<close>

lemma currQuality_declared: "currQuality r c w = declared_score r c w"
  by (simp add: currQuality_def declared_score_def)

text \<open>After asking the rules \<open>rl\<close> in turn, no rule matched or the earliest best one is held.\<close>

lemma fold_best:
  assumes nan: "\<forall>r\<in>set rl. \<forall>c. match r source w = Some c \<longrightarrow> declared_score r c w \<noteq> NaN"
    and b0: "best_capture b0 = None" "best_quality b0 = NaN"
  shows "(foldl (consult source w) b0 (map (\<lambda>r. (name r, r)) rl) = b0 \<and>
            (\<forall>r\<in>set rl. match r source w = None)) \<or>
         (\<exists>k. wins source w rl (length rl) k \<and>
              held source w rl (foldl (consult source w) b0 (map (\<lambda>r. (name r, r)) rl)) k)"
  using nan
proof (induction rl rule: rev_induct)
  case Nil
  then show ?case by simp
next
  case (snoc p ps)
  let ?e = "\<lambda>r. (name r, r)"
  let ?b = "foldl (consult source w) b0 (map ?e ps)"
  have nan': "\<forall>r\<in>set ps. \<forall>c. match r source w = Some c \<longrightarrow> declared_score r c w \<noteq> NaN"
    using snoc.prems by simp
  note IH = snoc.IH[OF nan']
  show ?case
  proof (cases "match p source w")
    case None
    then have eq: "consult source w ?b (?e p) = ?b" by (simp add: consult_def currQuality_declared)
    from IH show ?thesis
    proof
      assume "?b = b0 \<and> (\<forall>r\<in>set ps. match r source w = None)"
      then show ?thesis using None eq by simp
    next
      assume "\<exists>k. wins source w ps (length ps) k \<and> held source w ps ?b k"
      then obtain k where k: "wins source w ps (length ps) k" "held source w ps ?b k" by blast
      then have kl: "k < length ps" by (simp add: wins_def)
      have "wins source w (ps @ [p]) (length (ps @ [p])) k"
        using k(1) None unfolding wins_def
        by (auto simp: nth_append less_Suc_eq)
      moreover have "held source w (ps @ [p]) ?b k"
        using k(2) kl by (simp add: held_def nth_append)
      ultimately show ?thesis using eq by auto
    qed
  next
    case (Some c)
    let ?q = "declared_score p c w"
    have qn: "?q \<noteq> NaN" using snoc.prems Some by simp
    from IH show ?thesis
    proof
      assume a: "?b = b0 \<and> (\<forall>r\<in>set ps. match r source w = None)"
      then have upd: "consult source w ?b (?e p) =
          b0\<lparr>best_ruleType := Some (name p), best_rule := Some p,
             best_capture := Some c, best_quality := ?q\<rparr>"
        using Some b0 by (simp add: consult_def currQuality_declared)
      have "wins source w (ps @ [p]) (length (ps @ [p])) (length ps)"
        using a Some qn unfolding wins_def
        by (auto simp: nth_append less_Suc_eq num_le_refl)
      moreover have "held source w (ps @ [p])
                       (foldl (consult source w) b0 (map ?e (ps @ [p]))) (length ps)"
        using Some by (simp add: upd held_def)
      ultimately show ?thesis by blast
    next
      assume "\<exists>k. wins source w ps (length ps) k \<and> held source w ps ?b k"
      then obtain k where k: "wins source w ps (length ps) k" "held source w ps ?b k" by blast
      then have kl: "k < length ps" by (simp add: wins_def)
      from k(2) obtain ck where ck: "match (ps ! k) source w = Some ck"
        "best_quality ?b = declared_score (ps ! k) ck w"
        by (auto simp: held_def)
      let ?qk = "declared_score (ps ! k) ck w"
      have qkn: "?qk \<noteq> NaN" using snoc.prems ck(1) kl by (metis nth_mem UnI1 set_append)
      show ?thesis
      proof (cases "num_le ?q ?qk")
        case True
        then have eq: "consult source w ?b (?e p) = ?b"
          using Some ck by (simp add: consult_def currQuality_declared)
        have "wins source w (ps @ [p]) (length (ps @ [p])) k"
          using k(1) Some True ck(1) unfolding wins_def
          by (auto simp: nth_append less_Suc_eq)
        moreover have "held source w (ps @ [p]) ?b k"
          using k(2) kl by (simp add: held_def nth_append)
        ultimately show ?thesis using eq by auto
      next
        case False
        then have upd: "consult source w ?b (?e p) =
          ?b\<lparr>best_ruleType := Some (name p), best_rule := Some p,
             best_capture := Some c, best_quality := ?q\<rparr>"
          using Some ck by (simp add: consult_def currQuality_declared)
        have qk_le: "num_le ?qk ?q" using False num_le_total[OF qn qkn] by blast
        have "\<forall>j<length ps. \<forall>c'. match (ps ! j) source w = Some c' \<longrightarrow>
                num_le (declared_score (ps ! j) c' w) ?q \<and>
                \<not> num_le ?q (declared_score (ps ! j) c' w)"
        proof (intro allI impI)
          fix j c' assume j: "j < length ps" "match (ps ! j) source w = Some c'"
          then have "num_le (declared_score (ps ! j) c' w) ?qk"
            using k(1) ck(1) by (auto simp: wins_def)
          then show "num_le (declared_score (ps ! j) c' w) ?q \<and>
                \<not> num_le ?q (declared_score (ps ! j) c' w)"
            using qk_le False num_le_trans by blast
        qed
        then have "wins source w (ps @ [p]) (length (ps @ [p])) (length ps)"
          using Some qn unfolding wins_def
          by (auto simp: nth_append less_Suc_eq num_le_refl)
        moreover have "held source w (ps @ [p])
                         (foldl (consult source w) b0 (map ?e (ps @ [p]))) (length ps)"
          using Some by (simp add: upd held_def)
        ultimately show ?thesis by blast
      qed
    qed
  qed
qed

lemma wins_take: "m \<le> length rl \<Longrightarrow> wins source w (take m rl) m k \<Longrightarrow> wins source w rl m k"
  by (auto simp: wins_def)

lemma held_take: "k < m \<Longrightarrow> held source w (take m rl) b k \<Longrightarrow> held source w rl b k"
  by (auto simp: held_def)

lemma held_upd_i: "held source w rl (b\<lparr>best_i := x\<rparr>) k = held source w rl b k"
  by (simp add: held_def)

subsection \<open>Evaluating the example rules\<close>

lemma plain_examples:
  "plain_name ''em''" "plain_name ''strong''" "plain_name ''u''" "plain_name ''star''"
  "plain_name ''find''" "plain_name ''array''" "plain_name ''text''" "plain_name ''newline''"
  "plain_name ''keep''" "plain_name ''retype''" "plain_name ''nan''"
  by (simp_all add: plain_name_def)

lemmas example_rules =
  prefix_rule_def em_example_def strong_example_def u_example_def star_example_def find_rule_def
  array_rule_def letter_example_def newline_example_def keep_rule_def retype_rule_def
  nan_example_def

lemmas walk_eval =
  select_def toRuleObject_def walk_Nil walk_Cons consult_def currQuality_def no_best_def
  found_def index_truthy_def

lemmas loop_eval =
  nestedParse_def default_type_def collapse_def set_prevCapture_def get_field_def
  set_field_def alloc_def obj_get_def w0_def

section \<open>The claims about the rule walk\<close>

text \<open>
  Claim C2. At a parse position, once the walk holds a candidate match, the scorer of the
  next rule in priority order decides alone whether the walk goes on. Here \<open>pre\<close> are the
  rules up to that point, walked with a candidate as the outcome \<open>b\<close>, and \<open>r\<close> is the next
  rule. When \<open>r\<close> declares no scorer, the walk over the whole order \<open>pre @ r # post\<close> ends
  with the same best match and the same count \<open>i\<close> of rules asked, which is at most the
  length of \<open>pre\<close>: \<open>r\<close> is not asked and cannot win, whatever its recognizer does. When
  \<open>r\<close> declares a scorer and the walk has come to the end of \<open>pre\<close>, the walk goes on: \<open>r\<close>
  is asked next, against the candidate \<open>b\<close>. Nothing is assumed of the candidate's own
  rule in either case. The names of the registry are plain.
\<close>

theorem next_rule_scorer_decides_walk:
  assumes "plain_names (pre @ r # post)"
    and "select (toRuleObject pre) source w = Inr b"
    and "best_capture b \<noteq> None"
  shows "(quality r = None \<longrightarrow>
            select (toRuleObject (pre @ r # post)) source w = Inr b \<and> best_i b \<le> length pre) \<and>
         (quality r \<noteq> None \<longrightarrow> best_i b = length pre \<longrightarrow>
            select (toRuleObject (pre @ r # post)) source w =
              Inr (walk source w (name r, r) (map (\<lambda>r. (name r, r)) post) b))"
proof -
  let ?e = "\<lambda>r. (name r, r)"
  have pp: "plain_names pre" using assms(1) by (auto simp: plain_names_def)
  from assms(2) obtain first rest where rs: "toRuleObject pre = first # rest"
    and b: "b = walk source w first rest no_best"
    by (auto simp: select_def split: list.splits)
  have e1: "map ?e pre = first # rest" using toRuleObject_plain[OF pp] rs by simp
  have e2: "toRuleObject (pre @ r # post) = first # (rest @ ?e r # map ?e post)"
    using toRuleObject_plain[OF assms(1)] e1 by simp
  have len: "length pre = Suc (length rest)" using e1 by (metis length_Cons length_map)
  have i_le: "best_i b \<le> length pre"
    using walk_i_le[of source w first rest no_best] b len by (simp add: no_best_def)
  have stop: "select (toRuleObject (pre @ r # post)) source w = Inr b" if "quality r = None"
  proof -
    have "walk source w first (rest @ ?e r # map ?e post) no_best = walk source w first rest no_best"
      using assms(3) that b by (intro walk_stops) simp_all
    then show ?thesis using e2 b by (simp add: select_def)
  qed
  have go: "select (toRuleObject (pre @ r # post)) source w =
              Inr (walk source w (?e r) (map ?e post) b)"
    if "quality r \<noteq> None" "best_i b = length pre"
  proof -
    have "best_i (walk source w first rest no_best) = best_i no_best + Suc (length rest)"
      using that(2) b len by (simp add: no_best_def)
    from walk_continues[OF this, of "?e r" "map ?e post"]
    have "walk source w first (rest @ ?e r # map ?e post) no_best = walk source w (?e r) (map ?e post) b"
      using that(1) b by simp
    then show ?thesis using e2 by (simp add: select_def)
  qed
  show ?thesis using stop go i_le by blast
qed

lemma select_star_first:
  "select (toRuleObject [star_example]) ''*x'' w0 =
     Inr \<lparr>best_ruleType = Some ''star'', best_rule = Some star_example,
          best_capture = Some \<lparr>groups = [Some ''*''], index = Some 0\<rparr>, best_quality = Fin 0,
          best_i = 1\<rparr>"
  by (simp add: walk_eval example_rules)

lemma select_em_strong:
  "select (toRuleObject [em_example, strong_example]) ''*x'' w0 =
     Inr \<lparr>best_ruleType = Some ''strong'', best_rule = Some strong_example,
          best_capture = Some \<lparr>groups = [Some ''*''], index = Some 0\<rparr>, best_quality = Fin 5,
          best_i = 2\<rparr>"
  by (simp add: walk_eval example_rules)

theorem next_rule_scorer_decides_walk_witness:
  "select (toRuleObject ([em_example, strong_example] @ star_example # [u_example])) ''*x'' w0 =
     Inr \<lparr>best_ruleType = Some ''strong'', best_rule = Some strong_example,
          best_capture = Some \<lparr>groups = [Some ''*''], index = Some 0\<rparr>, best_quality = Fin 5,
          best_i = 2\<rparr> \<and>
   select (toRuleObject ([star_example] @ strong_example # [u_example])) ''*x'' w0 =
     Inr \<lparr>best_ruleType = Some ''strong'', best_rule = Some strong_example,
          best_capture = Some \<lparr>groups = [Some ''*''], index = Some 0\<rparr>, best_quality = Fin 5,
          best_i = 3\<rparr>"
proof -
  have p1: "plain_names ([em_example, strong_example] @ star_example # [u_example])"
    by (simp add: plain_names_def plain_examples example_rules)
  have p2: "plain_names ([star_example] @ strong_example # [u_example])"
    by (simp add: plain_names_def plain_examples example_rules)
  have q1: "quality star_example = None" by (simp add: example_rules)
  have q2: "quality strong_example \<noteq> None" by (simp add: example_rules)
  have n: "name strong_example = ''strong''" "name u_example = ''u''"
    by (simp_all add: example_rules)
  have going_on:
    "walk ''*x'' w0 (''strong'', strong_example) [(''u'', u_example)]
       \<lparr>best_ruleType = Some ''star'', best_rule = Some star_example,
        best_capture = Some \<lparr>groups = [Some ''*''], index = Some 0\<rparr>, best_quality = Fin 0,
        best_i = Suc 0\<rparr> =
     \<lparr>best_ruleType = Some ''strong'', best_rule = Some strong_example,
      best_capture = Some \<lparr>groups = [Some ''*''], index = Some 0\<rparr>, best_quality = Fin 5,
      best_i = 3\<rparr>"
    by (simp add: walk_eval example_rules)
  from next_rule_scorer_decides_walk[OF p1 select_em_strong]
       next_rule_scorer_decides_walk[OF p2 select_star_first]
  show ?thesis using q1 q2 by (simp add: n going_on)
qed

text \<open>
  Claim C3, as amended. At a parse position where some rule matches and no scorer
  returns \<open>NaN\<close>, the walk asks the rules in registry order up to the end of the order or
  up to a rule without scorer
  (\<open>i\<close> counts the rules asked), and among the rules asked it holds the match with the
  highest score, and of two matches with equal scores the one of the earlier rule: the
  rule \<open>k\<close> whose match is held wins among the first \<open>i\<close> rules of the registry. The
  names of the registry are plain.
\<close>

theorem highest_score_wins:
  assumes plain: "plain_names rl"
    and sel: "select (toRuleObject rl) source w = Inr b"
    and nan: "\<forall>r\<in>set rl. \<forall>c. match r source w = Some c \<longrightarrow> declared_score r c w \<noteq> NaN"
    and cap: "best_capture b \<noteq> None"
  shows "best_i b \<le> length rl \<and>
         (best_i b = length rl \<or> quality (rl ! best_i b) = None) \<and>
         (\<exists>k. wins source w rl (best_i b) k \<and> held source w rl b k)"
proof -
  let ?e = "\<lambda>r. (name r, r)"
  from sel obtain first rest where rs: "toRuleObject rl = first # rest"
    and b: "b = walk source w first rest no_best"
    by (auto simp: select_def split: list.splits)
  have ents: "map ?e rl = first # rest" using toRuleObject_plain[OF plain] rs by simp
  obtain m where m: "0 < m" "m \<le> Suc (length rest)"
    "m = Suc (length rest) \<or> quality (snd (rest ! (m - 1))) = None"
    "b = (foldl (consult source w) no_best (take m (first # rest)))\<lparr>best_i := best_i no_best + m\<rparr>"
    using walk_fold[of rest source w first no_best] b by blast
  have len: "length rl = Suc (length rest)" using ents by (metis length_Cons length_map)
  have i: "best_i b = m" using m(4) by (simp add: no_best_def)
  have ending: "m = length rl \<or> quality (rl ! m) = None"
  proof (cases "m = Suc (length rest)")
    case True
    then show ?thesis using len by simp
  next
    case False
    then have lt: "m < length rl" and q: "quality (snd (rest ! (m - 1))) = None"
      using m(2,3) len by simp_all
    have "(first # rest) ! m = rest ! (m - 1)" using m(1) by (cases m) simp_all
    moreover have "(map ?e rl) ! m = ?e (rl ! m)" using lt by simp
    ultimately have "snd (rest ! (m - 1)) = rl ! m" using ents by simp
    then show ?thesis using q by simp
  qed
  have tk: "take m (first # rest) = map ?e (take m rl)"
    unfolding ents[symmetric] by (simp add: take_map)
  let ?f = "foldl (consult source w) no_best (map ?e (take m rl))"
  have nan': "\<forall>r\<in>set (take m rl). \<forall>c. match r source w = Some c \<longrightarrow> declared_score r c w \<noteq> NaN"
    using nan by (meson in_set_takeD)
  have "(?f = no_best \<and> (\<forall>r\<in>set (take m rl). match r source w = None)) \<or>
        (\<exists>k. wins source w (take m rl) (length (take m rl)) k \<and> held source w (take m rl) ?f k)"
    by (rule fold_best[OF nan']) (simp_all add: no_best_def)
  moreover have "?f \<noteq> no_best"
    using cap m(4) tk by (auto simp: no_best_def)
  ultimately obtain k where k: "wins source w (take m rl) (length (take m rl)) k"
    "held source w (take m rl) ?f k" by blast
  have lm: "length (take m rl) = m" using m(2) len by simp
  have km: "k < m" using k(1) lm by (simp add: wins_def)
  have "wins source w rl m k" using wins_take[of m rl] k(1) m(2) len lm by simp
  moreover have "held source w rl b k"
    using held_take[OF km k(2)] m(4) tk by (simp add: held_upd_i)
  ultimately show ?thesis using i m(2) len ending by auto
qed

lemma select_stars:
  "select (toRuleObject [em_example, strong_example, u_example, star_example]) ''*x'' w0 =
     Inr \<lparr>best_ruleType = Some ''strong'', best_rule = Some strong_example,
          best_capture = Some \<lparr>groups = [Some ''*''], index = Some 0\<rparr>, best_quality = Fin 5,
          best_i = 3\<rparr>"
  by (simp add: walk_eval example_rules)

lemma scores_of_stars:
  "match em_example ''*x'' w0 = Some \<lparr>groups = [Some ''*''], index = Some 0\<rparr>"
  "match strong_example ''*x'' w0 = Some \<lparr>groups = [Some ''*''], index = Some 0\<rparr>"
  "match u_example ''*x'' w0 = Some \<lparr>groups = [Some ''*''], index = Some 0\<rparr>"
  "match nan_example ''*x'' w0 = Some \<lparr>groups = [Some ''*''], index = Some 0\<rparr>"
  "declared_score em_example c w = Fin 2"
  "declared_score strong_example c w = Fin 5"
  "declared_score u_example c w = Fin 5"
  "declared_score nan_example c w = NaN"
  "declared_score star_example c w = Fin 0"
  by (simp_all add: example_rules declared_score_def)

text \<open>
  On \<open>*x\<close> the three scorers give 2, 5 and 5: the second rule wins, ahead of the third
  with the same score, and the fourth rule, which has no scorer, is not asked.
\<close>

theorem highest_score_wins_witness:
  "select (toRuleObject [em_example, strong_example, u_example, star_example]) ''*x'' w0 =
     Inr \<lparr>best_ruleType = Some ''strong'', best_rule = Some strong_example,
          best_capture = Some \<lparr>groups = [Some ''*''], index = Some 0\<rparr>, best_quality = Fin 5,
          best_i = 3\<rparr> \<and>
   quality ([em_example, strong_example, u_example, star_example] ! 3) = None \<and>
   wins ''*x'' w0 [em_example, strong_example, u_example, star_example] 3 1"
proof -
  let ?rl = "[em_example, strong_example, u_example, star_example]"
  let ?b = "\<lparr>best_ruleType = Some ''strong'', best_rule = Some strong_example,
             best_capture = Some \<lparr>groups = [Some ''*''], index = Some 0\<rparr>, best_quality = Fin 5,
             best_i = 3\<rparr>"
  have h1: "plain_names ?rl"
    by (simp add: plain_names_def plain_examples example_rules)
  have h3: "\<forall>r\<in>set ?rl. \<forall>c. match r ''*x'' w0 = Some c \<longrightarrow> declared_score r c w0 \<noteq> NaN"
    by (simp add: scores_of_stars)
  have h4: "best_capture ?b \<noteq> None" by simp
  from highest_score_wins[OF h1 select_stars h3 h4]
  obtain k where q: "quality (?rl ! 3) = None" and k: "wins ''*x'' w0 ?rl 3 k"
    by auto
  from k have "k < 3" by (simp add: wins_def)
  then have "k = 0 \<or> k = 1 \<or> k = 2" by auto
  moreover have "\<not> wins ''*x'' w0 ?rl 3 0"
    unfolding wins_def by (auto simp: scores_of_stars intro!: exI[of _ 1])
  moreover have "\<not> wins ''*x'' w0 ?rl 3 2"
    unfolding wins_def by (auto simp: scores_of_stars intro!: exI[of _ 1])
  ultimately have "k = 1" using k by blast
  then show ?thesis using k q select_stars by simp
qed

text \<open>
  The claim as stated fails when a scorer returns \<open>NaN\<close>: no comparison with \<open>NaN\<close> holds,
  so the match scored \<open>NaN\<close> replaces the one scored 5, and the next match, scored 2,
  replaces it in turn. The walk ends holding the match with the lowest score.
\<close>

theorem nan_score_counterexample:
  "select (toRuleObject [strong_example, nan_example, em_example]) ''*x'' w0 =
     Inr \<lparr>best_ruleType = Some ''em'', best_rule = Some em_example,
          best_capture = Some \<lparr>groups = [Some ''*''], index = Some 0\<rparr>, best_quality = Fin 2,
          best_i = 3\<rparr> \<and>
   match strong_example ''*x'' w0 = Some \<lparr>groups = [Some ''*''], index = Some 0\<rparr> \<and>
   declared_score strong_example \<lparr>groups = [Some ''*''], index = Some 0\<rparr> w0 = Fin 5 \<and>
   declared_score em_example \<lparr>groups = [Some ''*''], index = Some 0\<rparr> w0 = Fin 2 \<and>
   \<not> num_le (Fin 5) (Fin 2)"
  by (simp add: walk_eval example_rules declared_score_def)

section \<open>The claims about the parse loop\<close>


subsection \<open>No rule matches\<close>

lemma select_none:
  assumes "plain_names rl" "rl \<noteq> []" "\<forall>r\<in>set rl. match r source w = None"
  shows "\<exists>b. select (toRuleObject rl) source w = Inr b \<and> found b = None"
proof -
  obtain r rs where rl: "rl = r # rs" using assms(2) by (cases rl) auto
  have e: "toRuleObject rl = (name r, r) # map (\<lambda>r. (name r, r)) rs"
    using toRuleObject_plain[OF assms(1)] rl by simp
  have "best_capture (walk source w (name r, r) (map (\<lambda>r. (name r, r)) rs) no_best) = None"
    using assms(3) rl by (intro walk_none) (auto simp: no_best_def)
  then show ?thesis by (simp add: e select_def found_def split: option.splits)
qed

text \<open>
  Where the registry has a first rule, its names are plain and no rule recognizes the
  input that is left, the walk ends without a match and the call ends with the error
  \<open>NoMatchingRule\<close>, whatever was collected so far.
\<close>

lemma no_match_raises:
  assumes "plain_names rl" "rl \<noteq> []" "source \<noteq> []" "\<forall>r\<in>set rl. match r source w = None"
  shows "parseLoop (toRuleObject rl) (Suc n) source result w = Some (Inl NoMatchingRule)"
proof -
  from select_none[OF assms(1,2,4)] obtain b where
    "select (toRuleObject rl) source w = Inr b" "found b = None" by blast
  then show ?thesis using assms(3) by simp
qed

text \<open>
  Claim C6. When every rule of the priority order fails to recognize the input that is
  left, the call is to end with the error \<open>NoMatchingRule\<close>. The \<open>do ... while\<close> loop reads
  \<open>currRule.match\<close> before the check that throws this error, so for the registry without
  rules, where \<open>rules[ruleList[0]]\<close> is \<open>undefined\<close>, the call \<open>createParser(new
  RuleList())('x')\<close> ends with a \<open>TypeError\<close> instead.
\<close>

theorem empty_registry_type_error:
  "outerParse [] [] (Suc 0) ''x'' None w0 = Some (Inl TypeError) \<and>
   parseLoop (toRuleObject []) (Suc 0) ''x'' [] w0 = Some (Inl TypeError)"
proof -
  have "preprocess (''x'' @ [NL, NL]) = ''x'' @ [NL, NL]"
    by (simp add: preprocess_def expand_tab_def remove_formfeed_def)
  then show ?thesis
    by (simp add: outerParse_def Let_def populateInitialState_def obj_get_def nestedParse_def
        toRuleObject_def select_def)
qed

subsection \<open>The anchor check\<close>








subsection \<open>Text nodes\<close>

lemma keeps_types_refl [simp]: "keeps_types w w"
  by (simp add: keeps_types_def)





lemma default_type_fresh [simp]: "fresh (default_type t parsed w) = fresh w"
  by (simp add: default_type_def)















subsection \<open>The empty input\<close>

text \<open>
  Claim C9, as amended. \<open>nestedParse\<close> returns the empty node sequence for the empty
  source, for every rule set and every state, and so does \<open>outerParse\<close> when the merged
  state is inline or sets \<open>disableAutoBlockNewlines\<close>. In block scope \<open>outerParse\<close> first
  appends two newlines, and the outcome is that of parsing them with the rule set.
\<close>

theorem empty_input:
  "nestedParse rules n [] w = Some (Inr ([], w)) \<and>
   (truthy (obj_get (populateInitialState
                       (case state of None \<Rightarrow> [(''inline'', JBool False)] | Some s \<Rightarrow> s)
                       defaultState) ''inline'') \<or>
    truthy (obj_get (populateInitialState
                       (case state of None \<Rightarrow> [(''inline'', JBool False)] | Some s \<Rightarrow> s)
                       defaultState) ''disableAutoBlockNewlines'')
    \<longrightarrow> outerParse rl defaultState n [] state w =
          Some (Inr ([], w\<lparr>pstate := obj_set (populateInitialState
                       (case state of None \<Rightarrow> [(''inline'', JBool False)] | Some s \<Rightarrow> s)
                       defaultState) ''prevCapture'' JUndefined\<rparr>))) \<and>
   (\<not> truthy (obj_get (populateInitialState
                       (case state of None \<Rightarrow> [(''inline'', JBool False)] | Some s \<Rightarrow> s)
                       defaultState) ''inline'') \<and>
    \<not> truthy (obj_get (populateInitialState
                       (case state of None \<Rightarrow> [(''inline'', JBool False)] | Some s \<Rightarrow> s)
                       defaultState) ''disableAutoBlockNewlines'')
    \<longrightarrow> outerParse rl defaultState n [] state w =
          nestedParse (toRuleObject rl) n [NL, NL]
            (w\<lparr>pstate := obj_set (populateInitialState
                       (case state of None \<Rightarrow> [(''inline'', JBool False)] | Some s \<Rightarrow> s)
                       defaultState) ''prevCapture'' JUndefined\<rparr>))"
proof -
  have a: "\<And>w. nestedParse rules n [] w = Some (Inr ([], w))" for rules
    by (cases n) (simp_all add: nestedParse_def)
  have p: "preprocess [] = []" "preprocess [NL, NL] = [NL, NL]"
    by (simp_all add: preprocess_def expand_tab_def remove_formfeed_def)
  show ?thesis
    by (auto simp: a outerParse_def Let_def p)
qed

lemma parse_two_newlines:
  "nestedParse (toRuleObject [newline_example]) 3 [NL, NL]
     (w0\<lparr>pstate := [(''inline'', JBool False), (''prevCapture'', JUndefined)]\<rparr>) =
   Some (Inr ([0, 1],
     \<lparr>pstate = [(''inline'', JBool False),
                (''prevCapture'', JCap \<lparr>groups = [Some [NL]], index = Some 0\<rparr>)],
      heap = (\<lambda>_. [])(0 := [(''content'', JStr [NL]), (''type'', JStr ''newline'')],
                       1 := [(''content'', JStr [NL]), (''type'', JStr ''newline'')]),
      fresh = 2\<rparr>))"
  by (simp add: numeral_3_eq_3 walk_eval loop_eval example_rules fun_upd_twist)

theorem empty_input_witness:
  "outerParse [newline_example] [] 0 [] (Some [(''inline'', JBool True)]) w0 =
     Some (Inr ([], w0\<lparr>pstate := [(''inline'', JBool True), (''prevCapture'', JUndefined)]\<rparr>)) \<and>
   outerParse [newline_example] [] 3 [] None w0 =
     Some (Inr ([0, 1],
       \<lparr>pstate = [(''inline'', JBool False),
                  (''prevCapture'', JCap \<lparr>groups = [Some [NL]], index = Some 0\<rparr>)],
        heap = (\<lambda>_. [])(0 := [(''content'', JStr [NL]), (''type'', JStr ''newline'')],
                         1 := [(''content'', JStr [NL]), (''type'', JStr ''newline'')]),
        fresh = 2\<rparr>))"
  using empty_input[of "[]" 0 w0 "Some [(''inline'', JBool True)]" "[]" "[newline_example]"]
    empty_input[of "[]" 3 w0 None "[]" "[newline_example]"]
  by (simp add: populateInitialState_def obj_get_def parse_two_newlines)

text \<open>
  The claim as stated fails in block scope, the default: with a rule for line ends the
  empty input yields two nodes (and with a rule set that does not recognize a newline it
  is an error).
\<close>

theorem empty_input_block_counterexample:
  "map_option (map_sum id fst) (outerParse [newline_example] [] 3 [] None w0) = Some (Inr [0, 1])"
  by (simp add: outerParse_def Let_def populateInitialState_def preprocess_def expand_tab_def
      remove_formfeed_def numeral_3_eq_3 walk_eval loop_eval example_rules)

section \<open>The claims about the state and the registry\<close>




lemma invoke_length [simp]: "length (invoke c m rs) = length rs"
  by (simp add: invoke_def split: sum.splits)

lemma invoke_other: "c \<noteq> a \<Longrightarrow> invoke c m rs ! a = rs ! a"
  by (simp add: invoke_def split: sum.splits)

lemma invoke_all_other: "c \<noteq> a \<Longrightarrow> invoke_all c ms rs ! a = rs ! a"
  by (induction ms arbitrary: rs) (simp_all add: invoke_other)

text \<open>
  Claim C8. \<open>clone\<close> returns a new registry, at an address of its own, that holds the
  same rules in the same order; the original is unchanged by it, and no sequence of
  \<open>add\<close>, \<open>insertBefore\<close>, \<open>insertAfter\<close> and \<open>remove\<close> calls on the clone changes the
  original's rules or their order.
\<close>

theorem clone_is_isolated:
  assumes "this < length rs" "clone this rs = (c, rs')"
  shows "rs' ! c = rs ! this \<and> c \<noteq> this \<and> rs' ! this = rs ! this \<and>
         (\<forall>ms. invoke_all c ms rs' ! this = rs ! this)"
proof -
  from assms(2) have c: "c = length rs" and rs': "rs' = rs @ [rs ! this]"
    by (simp_all add: clone_def new_RuleList_def)
  have ne: "c \<noteq> this" using assms(1) c by simp
  have "rs' ! this = rs ! this" using assms(1) rs' by (simp add: nth_append)
  then show ?thesis using ne c rs' by (simp add: invoke_all_other)
qed

theorem clone_is_isolated_witness:
  "snd (clone 0 [[em_example, strong_example]]) ! fst (clone 0 [[em_example, strong_example]]) = [em_example, strong_example] \<and>
   invoke_all (fst (clone 0 [[em_example, strong_example]]))
      [Remove ''em'', Add star_example, InsertBefore ''strong'' u_example, InsertAfter ''nothing'' u_example]
      (snd (clone 0 [[em_example, strong_example]])) ! 0 = [em_example, strong_example] \<and>
   invoke_all (fst (clone 0 [[em_example, strong_example]]))
      [Remove ''em'', Add star_example, InsertBefore ''strong'' u_example, InsertAfter ''nothing'' u_example]
      (snd (clone 0 [[em_example, strong_example]])) ! 1 = [u_example, strong_example, star_example]"
proof -
  have h1: "0 < length [[em_example, strong_example]]" by simp
  have h2: "clone 0 [[em_example, strong_example]] =
              (fst (clone 0 [[em_example, strong_example]]), snd (clone 0 [[em_example, strong_example]]))"
    by simp
  have n: "name em_example = ''em''" "name strong_example = ''strong''" "name u_example = ''u''"
    "name star_example = ''star''" by (simp_all add: example_rules)
  have e: "invoke_all (fst (clone 0 [[em_example, strong_example]]))
      [Remove ''em'', Add star_example, InsertBefore ''strong'' u_example, InsertAfter ''nothing'' u_example]
      (snd (clone 0 [[em_example, strong_example]])) ! 1 = [u_example, strong_example, star_example]"
    by (simp add: clone_def new_RuleList_def invoke_def remove_def add_def insertBefore_def
        insertAfter_def n)
  note t = clone_is_isolated[OF h1 h2]
  from t have a: "snd (clone 0 [[em_example, strong_example]]) ! fst (clone 0 [[em_example, strong_example]])
                    = [[em_example, strong_example]] ! 0" by blast
  from t have b: "invoke_all (fst (clone 0 [[em_example, strong_example]]))
      [Remove ''em'', Add star_example, InsertBefore ''strong'' u_example, InsertAfter ''nothing'' u_example]
      (snd (clone 0 [[em_example, strong_example]])) ! 0 = [[em_example, strong_example]] ! 0" by blast
  from a b e show ?thesis by (simp del: invoke_all.simps)
qed

section \<open>The claim about forward references\<close>

subsection \<open>The tables of references and definitions\<close>

lemma dict_get_dict_set: "k \<noteq> ''__proto__'' \<Longrightarrow> dict_get (dict_set ob k v) k = v"
  by (simp add: dict_get_def dict_set_def map_of_obj_set)

lemma dict_get_empty: "ordinary_key k \<Longrightarrow> dict_get [] k = JUndefined"
  by (simp add: dict_get_def inherited_def ordinary_key_def)

lemma ordinary_not_proto: "ordinary_key k \<Longrightarrow> k \<noteq> ''__proto__''"
  by (auto simp: ordinary_key_def Object_prototype_def)

lemma pstate_set_state: "obj_get (pstate (set_state k v w)) k' = (if k' = k then v else obj_get (pstate w) k')"
  by (simp add: set_state_def obj_get_obj_set)

lemma heap_set_state [simp]: "heap (set_state k v w) = heap w" "fresh (set_state k v w) = fresh w"
  by (simp_all add: set_state_def)

lemma get_field_set_state [simp]: "get_field (set_state k v w) a f = get_field w a f"
  by (simp add: get_field_def)

lemma pstate_set_field [simp]: "pstate (set_field w a k v) = pstate w"
  by (simp add: set_field_def)

text \<open>A reference met before the definition joins the list and is left as it is.\<close>

lemma parseRef_before:
  assumes "ref_key c = Some x" "ordinary_key x"
    and "obj_get (pstate w) ''_defs'' = JUndefined" "pending w x ns"
  shows "\<exists>w'. parseRef c w a = Some (Inr (a, w')) \<and> pending w' x (ns @ [a]) \<and>
              obj_get (pstate w') ''_defs'' = JUndefined \<and> heap w' = heap w \<and> fresh w' = fresh w"
proof -
  from assms(1) obtain s where s: "grp_or c 2 1 = Some s" "toLowerCase (collapse_spaces s) = x"
    by (auto simp: ref_key_def)
  note np = ordinary_not_proto[OF assms(2)]
  from assms(4) consider
    (none) "ns = []" "obj_get (pstate w) ''_refs'' = JUndefined"
  | (some) ob where "obj_get (pstate w) ''_refs'' = JObj ob" "dict_get ob x = JArr (map JRef ns)"
    unfolding pending_def by blast
  then show ?thesis
  proof cases
    case none
    then show ?thesis
      using s assms(2,3) np
      by (simp add: parseRef_def Let_def dict_get_empty pstate_set_state dict_get_dict_set pending_def)
  next
    case some
    then show ?thesis
      using s assms(2,3) np
      by (simp add: parseRef_def Let_def pstate_set_state dict_get_dict_set pending_def)
  qed
qed

text \<open>The definition gives its target and title to every node of the list.\<close>

lemma patch_refs_nodes:
  "\<exists>w'. patch_refs target title (map JRef ns) w = Inr w' \<and> pstate w' = pstate w \<and>
        fresh w' = fresh w \<and>
        (\<forall>a. get_field w' a ''target'' = (if a \<in> set ns then target else get_field w a ''target'') \<and>
             get_field w' a ''title'' = (if a \<in> set ns then title else get_field w a ''title''))"
proof (induction ns arbitrary: w)
  case Nil
  then show ?case by simp
next
  case (Cons n ns)
  let ?w1 = "set_field (set_field w n ''target'' target) n ''title'' title"
  from Cons[of ?w1] obtain w' where w': "patch_refs target title (map JRef ns) ?w1 = Inr w'"
    "pstate w' = pstate ?w1" "fresh w' = fresh ?w1"
    "\<forall>a. get_field w' a ''target'' = (if a \<in> set ns then target else get_field ?w1 a ''target'') \<and>
         get_field w' a ''title'' = (if a \<in> set ns then title else get_field ?w1 a ''title'')"
    by blast
  show ?case
    apply (rule exI[of _ w'])
    using w' by (simp add: get_field_set_field)
qed

lemma def_parse_patches:
  assumes "def_key d = Some x" "ordinary_key x"
    and "obj_get (pstate w) ''_defs'' = JUndefined" "pending w x ns" "\<forall>n\<in>set ns. n < fresh w"
  shows "\<exists>a w'. def_parse d p w = Some (Inr (a, w')) \<and> pending w' x ns \<and>
           defined_as w' x (grp_val d 2) (grp_val d 3) \<and> fresh w \<le> fresh w' \<and>
           (\<forall>n\<in>set ns. get_field w' n ''target'' = grp_val d 2 \<and>
                        get_field w' n ''title'' = grp_val d 3)"
proof -
  from assms(1) obtain s where s: "grp d 1 = Some s" "toLowerCase (collapse_spaces s) = x"
    by (auto simp: def_key_def)
  note np = ordinary_not_proto[OF assms(2)]
  from assms(4) consider
    (none) "ns = []" "obj_get (pstate w) ''_refs'' = JUndefined"
  | (some) ob where "obj_get (pstate w) ''_refs'' = JObj ob" "dict_get ob x = JArr (map JRef ns)"
    unfolding pending_def by blast
  then show ?thesis
  proof cases
    case none
    then show ?thesis
      using s assms(2,3) np
      by (simp add: def_parse_def Let_def build_def alloc_def pstate_set_state dict_get_dict_set
          pending_def defined_as_def set_state_def obj_get_obj_set)
  next
    case some
    obtain w1 where w1: "patch_refs (grp_val d 2) (grp_val d 3) (map JRef ns) w = Inr w1"
      "pstate w1 = pstate w" "fresh w1 = fresh w"
      "\<forall>a. get_field w1 a ''target'' = (if a \<in> set ns then grp_val d 2 else get_field w a ''target'') \<and>
           get_field w1 a ''title'' = (if a \<in> set ns then grp_val d 3 else get_field w a ''title'')"
      using patch_refs_nodes[of "grp_val d 2" "grp_val d 3" ns w] by blast
    have other: "\<forall>n\<in>set ns. n \<noteq> fresh w" using assms(5) by auto
    show ?thesis
      using s assms(2,3) np some w1 other
      by (auto simp: def_parse_def Let_def build_def alloc_def pstate_set_state dict_get_dict_set
          pending_def defined_as_def set_state_def obj_get_obj_set prop_of_def get_field_def)
  qed
qed

text \<open>A reference met after the definition takes the target and the title at once.\<close>

lemma parseRef_after:
  assumes "ref_key c = Some x" "ordinary_key x"
    and "defined_as w x target title" "pending w x ns"
  shows "\<exists>w'. parseRef c w a = Some (Inr (a, w')) \<and> pending w' x (ns @ [a]) \<and>
              defined_as w' x target title \<and> fresh w' = fresh w \<and>
              get_field w' a ''target'' = target \<and> get_field w' a ''title'' = title \<and>
              (\<forall>n f. n \<noteq> a \<longrightarrow> get_field w' n f = get_field w n f)"
proof -
  from assms(1) obtain s where s: "grp_or c 2 1 = Some s" "toLowerCase (collapse_spaces s) = x"
    by (auto simp: ref_key_def)
  note np = ordinary_not_proto[OF assms(2)]
  from assms(3) obtain dob where dob: "obj_get (pstate w) ''_defs'' = JObj dob"
    "dict_get dob x = JObj [(''target'', target), (''title'', title)]"
    by (auto simp: defined_as_def)
  have rd: "dict_get [(''target'', target), (''title'', title)] ''target'' = target"
    "dict_get [(''target'', target), (''title'', title)] ''title'' = title"
    by (simp_all add: dict_get_def)
  from assms(4) consider
    (none) "ns = []" "obj_get (pstate w) ''_refs'' = JUndefined"
  | (some) ob where "obj_get (pstate w) ''_refs'' = JObj ob" "dict_get ob x = JArr (map JRef ns)"
    unfolding pending_def by blast
  then show ?thesis
  proof cases
    case none
    then show ?thesis
      using s assms(2) np dob rd
      by (simp add: parseRef_def Let_def prop_of_def dict_get_empty pstate_set_state
          dict_get_dict_set pending_def defined_as_def get_field_set_field)
  next
    case some
    then show ?thesis
      using s assms(2) np dob rd
      by (simp add: parseRef_def Let_def prop_of_def pstate_set_state dict_get_dict_set
          pending_def defined_as_def get_field_set_field)
  qed
qed

lemma pstate_alloc [simp]: "pstate (snd (alloc ob w)) = pstate w"
  by (simp add: alloc_def)

lemma pending_alloc [simp]: "pending (snd (alloc ob w)) x ns = pending w x ns"
  by (simp add: pending_def)

lemma defined_as_alloc [simp]: "defined_as (snd (alloc ob w)) x t u = defined_as w x t u"
  by (simp add: defined_as_def)

lemma alloc_facts [simp]: "fst (alloc ob w) = fresh w" "fresh (snd (alloc ob w)) = Suc (fresh w)"
  by (simp_all add: alloc_def)

lemma get_field_alloc: "n \<noteq> fresh w \<Longrightarrow> get_field (snd (alloc ob w)) n f = get_field w n f"
  by (simp add: alloc_def get_field_def)

lemma mentions_Reference:
  "mentions (Reference c ob # ms) w =
     (case parseRef c (snd (alloc ob w)) (fresh w) of
        None \<Rightarrow> None
      | Some (Inl e) \<Rightarrow> Some (Inl e)
      | Some (Inr (a, w2)) \<Rightarrow>
          (case mentions ms w2 of
             None \<Rightarrow> None
           | Some (Inl e) \<Rightarrow> Some (Inl e)
           | Some (Inr (as, w3)) \<Rightarrow> Some (Inr (a # as, w3))))"
  by (simp add: alloc_def)

declare mentions.simps(2) [simp del]

lemma references_simps [simp]:
  "references [] = []" "references ((c, ob) # rs) = Reference c ob # references rs"
  by (simp_all add: references_def)

text \<open>References before the definition: they wait in the list, in the order met.\<close>

lemma references_before:
  assumes "\<forall>(c, ob)\<in>set rs. ref_key c = Some x" "ordinary_key x"
    and "obj_get (pstate w) ''_defs'' = JUndefined" "pending w x ns" "\<forall>n\<in>set ns. n < fresh w"
  shows "\<exists>as w'. (\<forall>rest. mentions (references rs @ rest) w =
                     (case mentions rest w' of
                        None \<Rightarrow> None
                      | Some (Inl e) \<Rightarrow> Some (Inl e)
                      | Some (Inr (bs, w'')) \<Rightarrow> Some (Inr (as @ bs, w'')))) \<and>
           length as = length rs \<and> pending w' x (ns @ as) \<and>
           obj_get (pstate w') ''_defs'' = JUndefined \<and> (\<forall>n\<in>set (ns @ as). n < fresh w')"
  using assms
proof (induction rs arbitrary: w ns)
  case Nil
  show ?case
    apply (rule exI[of _ "[]"], rule exI[of _ w])
    using Nil by (auto split: option.splits sum.splits)
next
  case (Cons r rs)
  obtain c ob where r: "r = (c, ob)" by (cases r)
  let ?w1 = "snd (alloc ob w)"
  have key: "ref_key c = Some x" using Cons.prems(1) r by simp
  from parseRef_before[OF key Cons.prems(2), of ?w1 ns "fresh w"] Cons.prems(3,4)
  obtain w2 where w2: "parseRef c ?w1 (fresh w) = Some (Inr (fresh w, w2))"
    "pending w2 x (ns @ [fresh w])" "obj_get (pstate w2) ''_defs'' = JUndefined"
    "fresh w2 = Suc (fresh w)"
    by auto
  have lt: "\<forall>n\<in>set (ns @ [fresh w]). n < fresh w2" using Cons.prems(5) w2(4) by auto
  have keys: "\<forall>(c, ob)\<in>set rs. ref_key c = Some x" using Cons.prems(1) by simp
  from Cons.IH[OF keys Cons.prems(2) w2(3) w2(2) lt]
  obtain as w' where IH:
    "\<forall>rest. mentions (references rs @ rest) w2 =
       (case mentions rest w' of
          None \<Rightarrow> None
        | Some (Inl e) \<Rightarrow> Some (Inl e)
        | Some (Inr (bs, w'')) \<Rightarrow> Some (Inr (as @ bs, w'')))"
    "length as = length rs" "pending w' x ((ns @ [fresh w]) @ as)"
    "obj_get (pstate w') ''_defs'' = JUndefined" "\<forall>n\<in>set ((ns @ [fresh w]) @ as). n < fresh w'"
    by blast
  show ?case
    apply (rule exI[of _ "fresh w # as"], rule exI[of _ w'])
    using IH w2(1) r by (auto simp: mentions_Reference split: option.splits sum.splits)
qed

text \<open>References after the definition: each takes the target and title, none loses them.\<close>

lemma references_after:
  assumes "\<forall>(c, ob)\<in>set rs. ref_key c = Some x" "ordinary_key x"
    and "defined_as w x target title" "pending w x ns"
    and "\<forall>n\<in>D. n < fresh w \<and> get_field w n ''target'' = target \<and> get_field w n ''title'' = title"
  shows "\<exists>as w'. mentions (references rs) w = Some (Inr (as, w')) \<and> length as = length rs \<and>
           (\<forall>n\<in>D \<union> set as. get_field w' n ''target'' = target \<and>
                                get_field w' n ''title'' = title)"
  using assms
proof (induction rs arbitrary: w ns D)
  case Nil
  then show ?case by simp
next
  case (Cons r rs)
  obtain c ob where r: "r = (c, ob)" by (cases r)
  let ?w1 = "snd (alloc ob w)"
  have key: "ref_key c = Some x" using Cons.prems(1) r by simp
  from parseRef_after[OF key Cons.prems(2), of ?w1 target title ns "fresh w"] Cons.prems(3,4)
  obtain w2 where w2: "parseRef c ?w1 (fresh w) = Some (Inr (fresh w, w2))"
    "pending w2 x (ns @ [fresh w])" "defined_as w2 x target title"
    "fresh w2 = Suc (fresh w)"
    "get_field w2 (fresh w) ''target'' = target" "get_field w2 (fresh w) ''title'' = title"
    "\<forall>n f. n \<noteq> fresh w \<longrightarrow> get_field w2 n f = get_field ?w1 n f"
    by auto
  have D': "\<forall>n\<in>insert (fresh w) D. n < fresh w2 \<and> get_field w2 n ''target'' = target \<and>
               get_field w2 n ''title'' = title"
    using Cons.prems(5) w2 by (auto simp: get_field_alloc)
  have keys: "\<forall>(c, ob)\<in>set rs. ref_key c = Some x" using Cons.prems(1) by simp
  from Cons.IH[OF keys Cons.prems(2) w2(3) w2(2) D']
  obtain as w' where IH: "mentions (references rs) w2 = Some (Inr (as, w'))"
    "length as = length rs"
    "\<forall>n\<in>insert (fresh w) D \<union> set as. get_field w' n ''target'' = target \<and>
        get_field w' n ''title'' = title"
    by blast
  show ?case
    apply (rule exI[of _ "fresh w # as"], rule exI[of _ w'])
    using IH w2(1) r by (auto simp: mentions_Reference)
qed

lemma forward_references_resolve:
  assumes "\<forall>(c, ob)\<in>set (before @ after). ref_key c = Some x" "def_key d = Some x"
    and "ordinary_key x"
    and "obj_get (pstate w) ''_defs'' = JUndefined" "obj_get (pstate w) ''_refs'' = JUndefined"
  shows "\<exists>as w'. mentions (references before @ Definition d # references after) w =
                    Some (Inr (as, w')) \<and>
                  length as = length before + length after \<and>
                  (\<forall>a\<in>set as. get_field w' a ''target'' = grp_val d 2 \<and>
                              get_field w' a ''title'' = grp_val d 3)"
proof -
  have p0: "pending w x []" using assms(5) by (simp add: pending_def)
  have kb: "\<forall>(c, ob)\<in>set before. ref_key c = Some x" and ka: "\<forall>(c, ob)\<in>set after. ref_key c = Some x"
    using assms(1) by auto
  from references_before[OF kb assms(3,4) p0]
  obtain as1 w1 where b:
    "\<forall>rest. mentions (references before @ rest) w =
       (case mentions rest w1 of
          None \<Rightarrow> None
        | Some (Inl e) \<Rightarrow> Some (Inl e)
        | Some (Inr (bs, w'')) \<Rightarrow> Some (Inr (as1 @ bs, w'')))"
    "length as1 = length before" "pending w1 x ([] @ as1)"
    "obj_get (pstate w1) ''_defs'' = JUndefined" "\<forall>n\<in>set ([] @ as1). n < fresh w1"
    by force
  from def_parse_patches[OF assms(2,3) b(4), of as1 "\<lambda>src w'. None"] b(3,5)
  obtain a w2 where d: "def_parse d (\<lambda>src w'. None) w1 = Some (Inr (a, w2))"
    "pending w2 x as1" "defined_as w2 x (grp_val d 2) (grp_val d 3)" "fresh w1 \<le> fresh w2"
    "\<forall>n\<in>set as1. get_field w2 n ''target'' = grp_val d 2 \<and> get_field w2 n ''title'' = grp_val d 3"
    by auto
  have D: "\<forall>n\<in>set as1. n < fresh w2 \<and> get_field w2 n ''target'' = grp_val d 2 \<and>
             get_field w2 n ''title'' = grp_val d 3"
    using d(4,5) b(5) by fastforce
  from references_after[OF ka assms(3) d(3) d(2) D]
  obtain as2 w3 where a: "mentions (references after) w2 = Some (Inr (as2, w3))"
    "length as2 = length after"
    "\<forall>n\<in>set as1 \<union> set as2. get_field w3 n ''target'' = grp_val d 2 \<and>
        get_field w3 n ''title'' = grp_val d 3"
    by blast
  show ?thesis
    apply (rule exI[of _ "as1 @ as2"], rule exI[of _ w3])
    using b(1,2) d(1) a by auto
qed

text \<open>
  Two references before the definition of \<open>p q\<close> and one after it: one with two spaces
  in the name, an image, and a link with an empty second bracket.
\<close>

lemma forward_references_example:
  "\<exists>as w'. mentions
      (references
         [(\<lparr>groups = [Some ''[a][p  q]'', Some ''a'', Some ''p  q''], index = Some 0\<rparr>,
           [(''type'', JStr ''link''), (''content'', JArr [])]),
          (\<lparr>groups = [Some ''![i][p q]'', Some ''i'', Some ''p q''], index = Some 0\<rparr>,
           [(''type'', JStr ''image''), (''alt'', JStr ''i'')])] @
       Definition \<lparr>groups = [Some ''[p q]: /url'', Some ''p q'', Some ''/url'', None], index = Some 0\<rparr> #
       references
         [(\<lparr>groups = [Some ''[p q][]'', Some ''p q'', Some []], index = Some 0\<rparr>,
           [(''type'', JStr ''link''), (''content'', JArr [])])]) w0 = Some (Inr (as, w')) \<and>
     length as = 3 \<and>
     (\<forall>a\<in>set as. get_field w' a ''target'' = JStr ''/url'' \<and>
                  get_field w' a ''title'' = JUndefined)"
proof -
  let ?before = "[(\<lparr>groups = [Some ''[a][p  q]'', Some ''a'', Some ''p  q''], index = Some 0\<rparr>,
           [(''type'', JStr ''link''), (''content'', JArr [])]),
          (\<lparr>groups = [Some ''![i][p q]'', Some ''i'', Some ''p q''], index = Some 0\<rparr>,
           [(''type'', JStr ''image''), (''alt'', JStr ''i'')])]"
  let ?after = "[(\<lparr>groups = [Some ''[p q][]'', Some ''p q'', Some []], index = Some 0\<rparr>,
           [(''type'', JStr ''link''), (''content'', JArr [])])]"
  let ?d = "\<lparr>groups = [Some ''[p q]: /url'', Some ''p q'', Some ''/url'', None], index = Some 0\<rparr>"
  have k: "\<forall>(c, ob)\<in>set (?before @ ?after). ref_key c = Some ''p q''"
    by (simp add: ref_key_def grp_or_def grp_def toLowerCase_def lower_char_def in_range_def
        is_space_def)
  have d: "def_key ?d = Some ''p q''"
    by (simp add: def_key_def grp_def toLowerCase_def lower_char_def in_range_def is_space_def)
  have o: "ordinary_key ''p q''" by (simp add: ordinary_key_def Object_prototype_def)
  have s: "obj_get (pstate w0) ''_defs'' = JUndefined" "obj_get (pstate w0) ''_refs'' = JUndefined"
    by (simp_all add: w0_def obj_get_def)
  from forward_references_resolve[OF k d o s] show ?thesis
    by (simp add: grp_val_def grp_def eval_nat_numeral)
qed

subsection \<open>Evaluating the patterns\<close>

declare exec_from.simps [simp del]

lemma exec_from_Nil: "exec_from r i p [] = match_at r i p []"
  by (simp add: exec_from.simps[of _ _ _ "[]"] split: option.splits)

lemma exec_from_Cons:
  "exec_from r i p (ch # cs) =
     (case match_at r i p (ch # cs) of
        Some c \<Rightarrow> Some c
      | None \<Rightarrow> exec_from r (Suc i) (Some ch) cs)"
  by (simp add: exec_from.simps[of _ _ _ "ch # cs"] split: option.splits)

text \<open>A pattern that begins with \<open>^\<close> matches at index 0 or not at all.\<close>

lemma exec_from_Bol: "exec_from (Seq Bol r) i (Some ch) s = None"
  by (induction s arbitrary: i ch) (simp_all add: match_at_def exec_from_Nil exec_from_Cons)

lemma exec_Bol: "exec (Seq Bol r) s = match_at (Seq Bol r) 0 None s"
  by (cases s) (simp_all add: exec_def exec_from_Bol exec_from_Nil exec_from_Cons split: option.splits)

lemma exec_from_Alt_Bol: "exec_from (Alt (Seq Bol r) (Seq Bol r')) i (Some ch) s = None"
  by (induction s arbitrary: i ch) (simp_all add: match_at_def exec_from_Nil exec_from_Cons)

lemma exec_Alt_Bol:
  "exec (Alt (Seq Bol r) (Seq Bol r')) s = match_at (Alt (Seq Bol r) (Seq Bol r')) 0 None s"
  by (cases s)
    (simp_all add: exec_def exec_from_Alt_Bol exec_from_Nil exec_from_Cons split: option.splits)

text \<open>
  The equations of the matcher at a state that is written out. Used as rewrite rules
  they unfold a pattern only where the match has arrived, not inside the continuations.
\<close>

lemma step_char_Nil: "step_char p \<lparr>behind = b, ahead = [], captures = f\<rparr> c = None"
  by (simp add: step_char_def)

lemma step_char_Cons:
  "step_char p \<lparr>behind = b, ahead = ch # cs, captures = f\<rparr> c =
     (if p ch then c \<lparr>behind = Some ch, ahead = cs, captures = f\<rparr> else None)"
  by (simp add: step_char_def)

lemma matchRe_at:
  "matchRe (Chr a) \<lparr>behind = b, ahead = s, captures = f\<rparr> c =
     step_char (\<lambda>ch. ch = a) \<lparr>behind = b, ahead = s, captures = f\<rparr> c"
  "matchRe (Cls neg items) \<lparr>behind = b, ahead = s, captures = f\<rparr> c =
     step_char (\<lambda>ch. list_ex (\<lambda>i. citem_has i ch) items \<noteq> neg)
       \<lparr>behind = b, ahead = s, captures = f\<rparr> c"
  "matchRe Dot \<lparr>behind = b, ahead = s, captures = f\<rparr> c =
     step_char (\<lambda>ch. ch \<noteq> CHR 0x0A \<and> ch \<noteq> CHR 0x0D) \<lparr>behind = b, ahead = s, captures = f\<rparr> c"
  "matchRe Bol \<lparr>behind = b, ahead = s, captures = f\<rparr> c =
     (if b = None then c \<lparr>behind = b, ahead = s, captures = f\<rparr> else None)"
  "matchRe Eol \<lparr>behind = b, ahead = s, captures = f\<rparr> c =
     (if s = [] then c \<lparr>behind = b, ahead = s, captures = f\<rparr> else None)"
  "matchRe WordB \<lparr>behind = b, ahead = s, captures = f\<rparr> c =
     (if (case b of None \<Rightarrow> False | Some a \<Rightarrow> is_word a) \<noteq>
         (case s of [] \<Rightarrow> False | d # _ \<Rightarrow> is_word d)
      then c \<lparr>behind = b, ahead = s, captures = f\<rparr> else None)"
  "matchRe Empty \<lparr>behind = b, ahead = s, captures = f\<rparr> c = c \<lparr>behind = b, ahead = s, captures = f\<rparr>"
  "matchRe (Seq r r') \<lparr>behind = b, ahead = s, captures = f\<rparr> c =
     matchRe r \<lparr>behind = b, ahead = s, captures = f\<rparr> (\<lambda>y. matchRe r' y c)"
  "matchRe (Alt r r') \<lparr>behind = b, ahead = s, captures = f\<rparr> c =
     (case matchRe r \<lparr>behind = b, ahead = s, captures = f\<rparr> c of
        Some z \<Rightarrow> Some z
      | None \<Rightarrow> matchRe r' \<lparr>behind = b, ahead = s, captures = f\<rparr> c)"
  "matchRe (Rep r mn mx greedy) \<lparr>behind = b, ahead = s, captures = f\<rparr> c =
     repeatMatcher (matchRe r) mn mx greedy (parens_of r) \<lparr>behind = b, ahead = s, captures = f\<rparr> c"
  "matchRe (Grp n r) \<lparr>behind = b, ahead = s, captures = f\<rparr> c =
     matchRe r \<lparr>behind = b, ahead = s, captures = f\<rparr>
       (\<lambda>y. c (y\<lparr>captures := (captures y)(n := Some (take (length s - length (ahead y)) s))\<rparr>))"
  "matchRe (Ahead r) \<lparr>behind = b, ahead = s, captures = f\<rparr> c =
     (case matchRe r \<lparr>behind = b, ahead = s, captures = f\<rparr> Some of
        None \<Rightarrow> None
      | Some y \<Rightarrow> c \<lparr>behind = b, ahead = s, captures = captures y\<rparr>)"
  "matchRe (NotAhead r) \<lparr>behind = b, ahead = s, captures = f\<rparr> c =
     (case matchRe r \<lparr>behind = b, ahead = s, captures = f\<rparr> Some of
        None \<Rightarrow> c \<lparr>behind = b, ahead = s, captures = f\<rparr>
      | Some y \<Rightarrow> None)"
  "matchRe (Backref n) \<lparr>behind = b, ahead = s, captures = f\<rparr> c =
     (case f n of
        None \<Rightarrow> c \<lparr>behind = b, ahead = s, captures = f\<rparr>
      | Some t \<Rightarrow>
          if take (length t) s = t
          then c \<lparr>behind = (if t = [] then b else Some (last t)), ahead = drop (length t) s,
                  captures = f\<rparr>
          else None)"
  by (simp_all split: option.splits)

lemma repeatMatcher_at:
  "repeatMatcher m mn mx greedy parens \<lparr>behind = b, ahead = s, captures = f\<rparr> c =
     (if mx = Some 0 then c \<lparr>behind = b, ahead = s, captures = f\<rparr>
      else if mn \<noteq> 0
        then m \<lparr>behind = b, ahead = s, captures = (\<lambda>k. if k \<in> set parens then None else f k)\<rparr>
               (\<lambda>y. repeatMatcher m (mn - 1) (map_option (\<lambda>k. k - 1) mx) greedy parens y c)
      else if \<not> greedy
        then (case c \<lparr>behind = b, ahead = s, captures = f\<rparr> of
                Some z \<Rightarrow> Some z
              | None \<Rightarrow>
                  m \<lparr>behind = b, ahead = s, captures = (\<lambda>k. if k \<in> set parens then None else f k)\<rparr>
                    (\<lambda>y. if length s \<le> length (ahead y) then None
                         else repeatMatcher m 0 (map_option (\<lambda>k. k - 1) mx) greedy parens y c))
      else (case m \<lparr>behind = b, ahead = s, captures = (\<lambda>k. if k \<in> set parens then None else f k)\<rparr>
                   (\<lambda>y. if length s \<le> length (ahead y) then None
                        else repeatMatcher m 0 (map_option (\<lambda>k. k - 1) mx) greedy parens y c) of
              Some z \<Rightarrow> Some z
            | None \<Rightarrow> c \<lparr>behind = b, ahead = s, captures = f\<rparr>))"
  by (subst repeatMatcher.simps)
    (simp only: mstate.simps cong del: option.case_cong_weak if_weak_cong)

declare matchRe.simps [simp del] repeatMatcher.simps [simp del]

lemmas patterns =
  LIST_BULLET_def LIST_R_def LIST_LOOKBEHIND_R_def TABLE_REGEX_def NPTABLE_REGEX_def
  LINK_INSIDE_def LINK_HREF_AND_TITLE_def heading_R_def lheading_R_def hr_R_def codeBlock_R_def
  fence_R_def blockQuote_R_def def_R_def newline_R_def paragraph_R_def escape_R_def
  tableSeparator_R_def autolink_R_def mailto_R_def url_R_def link_R_def image_R_def
  reflink_R_def refimage_R_def em_R_def strong_R_def u_R_def del_R_def inlineCode_R_def br_R_def
  text_R_def star_def rplus_def opt_def lazy_star_def lazy_plus_def at_least_def lit_def
  one_of_def none_of_def sp_def nl_def not_nl_def any_char_def ws_def non_ws_def block_end_def

lemmas regex_eval =
  exec_Bol exec_Alt_Bol match_at_def matchRe_at repeatMatcher_at step_char_Nil step_char_Cons
  is_space_def in_range_def is_digit_def is_word_def

lemmas search_eval = exec_def exec_from_Nil exec_from_Cons

lemmas sources =
  src_ref_first_def src_def_first_def src_def_def src_par_def src_link_def src_a_def
  src_ctor_first_def src_ctor_par_def src_ctor_link_def


lemma exec_heading_ref_first:
  "exec heading_R src_ref_first = None"
  by (simp add: sources patterns regex_eval)

lemma exec_nptable_ref_first:
  "exec NPTABLE_REGEX src_ref_first = None"
  by (simp add: sources patterns regex_eval)

lemma exec_lheading_ref_first:
  "exec lheading_R src_ref_first = None"
  by (simp add: sources patterns regex_eval)

lemma exec_hr_ref_first:
  "exec hr_R src_ref_first = None"
  by (simp add: sources patterns regex_eval)

lemma exec_codeblock_ref_first:
  "exec codeBlock_R src_ref_first = None"
  by (simp add: sources patterns regex_eval)

lemma exec_fence_ref_first:
  "exec fence_R src_ref_first = None"
  by (simp add: sources patterns regex_eval)

lemma exec_blockquote_ref_first:
  "exec blockQuote_R src_ref_first = None"
  by (simp add: sources patterns regex_eval)

lemma exec_list_r_ref_first:
  "exec LIST_R src_ref_first = None"
  by (simp add: sources patterns regex_eval)

lemma exec_def_ref_first:
  "exec def_R src_ref_first = None"
  by (simp add: sources patterns regex_eval)

lemma exec_table_ref_first:
  "exec TABLE_REGEX src_ref_first = None"
  by (simp add: sources patterns regex_eval)

lemma exec_newline_ref_first:
  "exec newline_R src_ref_first = None"
  by (simp add: sources patterns regex_eval)

lemma exec_paragraph_ref_first:
  "exec paragraph_R src_ref_first =
     Some \<lparr>groups = [Some src_par, Some src_link], index = Some 0\<rparr>"
  by (simp add: sources patterns regex_eval)

lemma exec_heading_def:
  "exec heading_R src_def = None"
  by (simp add: sources patterns regex_eval)

lemma exec_nptable_def:
  "exec NPTABLE_REGEX src_def = None"
  by (simp add: sources patterns regex_eval)

lemma exec_lheading_def:
  "exec lheading_R src_def = None"
  by (simp add: sources patterns regex_eval)

lemma exec_hr_def:
  "exec hr_R src_def = None"
  by (simp add: sources patterns regex_eval)

lemma exec_codeblock_def:
  "exec codeBlock_R src_def = None"
  by (simp add: sources patterns regex_eval)

lemma exec_fence_def:
  "exec fence_R src_def = None"
  by (simp add: sources patterns regex_eval)

lemma exec_blockquote_def:
  "exec blockQuote_R src_def = None"
  by (simp add: sources patterns regex_eval)

lemma exec_list_r_def:
  "exec LIST_R src_def = None"
  by (simp add: sources patterns regex_eval)

lemma exec_def_def:
  "exec def_R src_def =
     Some \<lparr>groups = [Some src_def, Some ''x'', Some ''/url'', Some ''t''], index = Some 0\<rparr>"
  by (simp add: sources patterns regex_eval)

lemma exec_heading_def_first:
  "exec heading_R src_def_first = None"
  by (simp add: sources patterns regex_eval)

lemma exec_nptable_def_first:
  "exec NPTABLE_REGEX src_def_first = None"
  by (simp add: sources patterns regex_eval)

lemma exec_lheading_def_first:
  "exec lheading_R src_def_first = None"
  by (simp add: sources patterns regex_eval)

lemma exec_hr_def_first:
  "exec hr_R src_def_first = None"
  by (simp add: sources patterns regex_eval)

lemma exec_codeblock_def_first:
  "exec codeBlock_R src_def_first = None"
  by (simp add: sources patterns regex_eval)

lemma exec_fence_def_first:
  "exec fence_R src_def_first = None"
  by (simp add: sources patterns regex_eval)

lemma exec_blockquote_def_first:
  "exec blockQuote_R src_def_first = None"
  by (simp add: sources patterns regex_eval)

lemma exec_list_r_def_first:
  "exec LIST_R src_def_first = None"
  by (simp add: sources patterns regex_eval)

lemma exec_def_def_first:
  "exec def_R src_def_first =
     Some \<lparr>groups = [Some src_def, Some ''x'', Some ''/url'', Some ''t''], index = Some 0\<rparr>"
  by (simp add: sources patterns regex_eval)

lemma exec_heading_par:
  "exec heading_R src_par = None"
  by (simp add: sources patterns regex_eval)

lemma exec_nptable_par:
  "exec NPTABLE_REGEX src_par = None"
  by (simp add: sources patterns regex_eval)

lemma exec_lheading_par:
  "exec lheading_R src_par = None"
  by (simp add: sources patterns regex_eval)

lemma exec_hr_par:
  "exec hr_R src_par = None"
  by (simp add: sources patterns regex_eval)

lemma exec_codeblock_par:
  "exec codeBlock_R src_par = None"
  by (simp add: sources patterns regex_eval)

lemma exec_fence_par:
  "exec fence_R src_par = None"
  by (simp add: sources patterns regex_eval)

lemma exec_blockquote_par:
  "exec blockQuote_R src_par = None"
  by (simp add: sources patterns regex_eval)

lemma exec_list_r_par:
  "exec LIST_R src_par = None"
  by (simp add: sources patterns regex_eval)

lemma exec_def_par:
  "exec def_R src_par = None"
  by (simp add: sources patterns regex_eval)

lemma exec_table_par:
  "exec TABLE_REGEX src_par = None"
  by (simp add: sources patterns regex_eval)

lemma exec_newline_par:
  "exec newline_R src_par = None"
  by (simp add: sources patterns regex_eval)

lemma exec_paragraph_par:
  "exec paragraph_R src_par =
     Some \<lparr>groups = [Some src_par, Some src_link], index = Some 0\<rparr>"
  by (simp add: sources patterns regex_eval)

lemma exec_escape_link:
  "exec escape_R src_link = None"
  by (simp add: sources patterns regex_eval)

lemma exec_autolink_link:
  "exec autolink_R src_link = None"
  by (simp add: sources patterns regex_eval)

lemma exec_mailto_link:
  "exec mailto_R src_link = None"
  by (simp add: sources patterns regex_eval)

lemma exec_url_link:
  "exec url_R src_link = None"
  by (simp add: sources patterns regex_eval)

lemma exec_link_link:
  "exec link_R src_link = None"
  by (simp add: sources patterns regex_eval)

lemma exec_image_link:
  "exec image_R src_link = None"
  by (simp add: sources patterns regex_eval)

lemma exec_reflink_link:
  "exec reflink_R src_link =
     Some \<lparr>groups = [Some src_link, Some src_a, Some ''x''], index = Some 0\<rparr>"
  by (simp add: sources patterns regex_eval)

lemma exec_escape_a:
  "exec escape_R src_a = None"
  by (simp add: sources patterns regex_eval)

lemma exec_autolink_a:
  "exec autolink_R src_a = None"
  by (simp add: sources patterns regex_eval)

lemma exec_mailto_a:
  "exec mailto_R src_a = None"
  by (simp add: sources patterns regex_eval)

lemma exec_url_a:
  "exec url_R src_a = None"
  by (simp add: sources patterns regex_eval)

lemma exec_link_a:
  "exec link_R src_a = None"
  by (simp add: sources patterns regex_eval)

lemma exec_image_a:
  "exec image_R src_a = None"
  by (simp add: sources patterns regex_eval)

lemma exec_reflink_a:
  "exec reflink_R src_a = None"
  by (simp add: sources patterns regex_eval)

lemma exec_refimage_a:
  "exec refimage_R src_a = None"
  by (simp add: sources patterns regex_eval)

lemma exec_em_a:
  "exec em_R src_a = None"
  by (simp add: sources patterns regex_eval)

lemma exec_strong_a:
  "exec strong_R src_a = None"
  by (simp add: sources patterns regex_eval)

lemma exec_u_a:
  "exec u_R src_a = None"
  by (simp add: sources patterns regex_eval)

lemma exec_del_a:
  "exec del_R src_a = None"
  by (simp add: sources patterns regex_eval)

lemma exec_inlinecode_a:
  "exec inlineCode_R src_a = None"
  by (simp add: sources patterns regex_eval)

lemma exec_br_a:
  "exec br_R src_a = None"
  by (simp add: sources patterns regex_eval)

lemma exec_text_a:
  "exec text_R src_a = Some \<lparr>groups = [Some src_a], index = Some 0\<rparr>"
  by (simp add: sources patterns regex_eval)

lemma exec_heading_ctor_first:
  "exec heading_R src_ctor_first = None"
  by (simp add: sources patterns regex_eval)

lemma exec_nptable_ctor_first:
  "exec NPTABLE_REGEX src_ctor_first = None"
  by (simp add: sources patterns regex_eval)

lemma exec_lheading_ctor_first:
  "exec lheading_R src_ctor_first = None"
  by (simp add: sources patterns regex_eval)

lemma exec_hr_ctor_first:
  "exec hr_R src_ctor_first = None"
  by (simp add: sources patterns regex_eval)

lemma exec_codeblock_ctor_first:
  "exec codeBlock_R src_ctor_first = None"
  by (simp add: sources patterns regex_eval)

lemma exec_fence_ctor_first:
  "exec fence_R src_ctor_first = None"
  by (simp add: sources patterns regex_eval)

lemma exec_blockquote_ctor_first:
  "exec blockQuote_R src_ctor_first = None"
  by (simp add: sources patterns regex_eval)

lemma exec_list_r_ctor_first:
  "exec LIST_R src_ctor_first = None"
  by (simp add: sources patterns regex_eval)

lemma exec_def_ctor_first:
  "exec def_R src_ctor_first = None"
  by (simp add: sources patterns regex_eval)

lemma exec_table_ctor_first:
  "exec TABLE_REGEX src_ctor_first = None"
  by (simp add: sources patterns regex_eval)

lemma exec_newline_ctor_first:
  "exec newline_R src_ctor_first = None"
  by (simp add: sources patterns regex_eval)

lemma exec_paragraph_ctor_first:
  "exec paragraph_R src_ctor_first =
     Some \<lparr>groups = [Some src_ctor_par, Some src_ctor_link], index = Some 0\<rparr>"
  by (simp add: sources patterns regex_eval)

lemma exec_escape_ctor_link:
  "exec escape_R src_ctor_link = None"
  by (simp add: sources patterns regex_eval)

lemma exec_autolink_ctor_link:
  "exec autolink_R src_ctor_link = None"
  by (simp add: sources patterns regex_eval)

lemma exec_mailto_ctor_link:
  "exec mailto_R src_ctor_link = None"
  by (simp add: sources patterns regex_eval)

lemma exec_url_ctor_link:
  "exec url_R src_ctor_link = None"
  by (simp add: sources patterns regex_eval)

lemma exec_link_ctor_link:
  "exec link_R src_ctor_link = None"
  by (simp add: sources patterns regex_eval)

lemma exec_image_ctor_link:
  "exec image_R src_ctor_link = None"
  by (simp add: sources patterns regex_eval)

lemma exec_reflink_ctor_link:
  "exec reflink_R src_ctor_link =
     Some \<lparr>groups = [Some src_ctor_link, Some src_a, Some ''constructor''], index = Some 0\<rparr>"
  by (simp add: sources patterns regex_eval)

lemma exec_lookbehind_empty:
  "exec LIST_LOOKBEHIND_R [] =
     Some \<lparr>groups = [Some [], Some []], index = Some 0\<rparr>"
  by (simp add: sources patterns search_eval regex_eval)

lemma exec_lookbehind_par:
  "exec LIST_LOOKBEHIND_R src_par =
     Some \<lparr>groups = [Some [NL], Some []], index = Some 7\<rparr>"
  by (simp add: sources patterns search_eval regex_eval)

lemma exec_lookbehind_def:
  "exec LIST_LOOKBEHIND_R src_def =
     Some \<lparr>groups = [Some [NL], Some []], index = Some 14\<rparr>"
  by (simp add: sources patterns search_eval regex_eval)

lemmas exec_results =
  exec_heading_ref_first exec_nptable_ref_first exec_lheading_ref_first exec_hr_ref_first
  exec_codeblock_ref_first exec_fence_ref_first exec_blockquote_ref_first exec_list_r_ref_first
  exec_def_ref_first exec_table_ref_first exec_newline_ref_first exec_paragraph_ref_first
  exec_heading_def exec_nptable_def exec_lheading_def exec_hr_def exec_codeblock_def
  exec_fence_def exec_blockquote_def exec_list_r_def exec_def_def exec_heading_def_first
  exec_nptable_def_first exec_lheading_def_first exec_hr_def_first exec_codeblock_def_first
  exec_fence_def_first exec_blockquote_def_first exec_list_r_def_first exec_def_def_first
  exec_heading_par exec_nptable_par exec_lheading_par exec_hr_par exec_codeblock_par
  exec_fence_par exec_blockquote_par exec_list_r_par exec_def_par exec_table_par
  exec_newline_par exec_paragraph_par exec_escape_link exec_autolink_link exec_mailto_link
  exec_url_link exec_link_link exec_image_link exec_reflink_link exec_escape_a exec_autolink_a
  exec_mailto_a exec_url_a exec_link_a exec_image_a exec_reflink_a exec_refimage_a exec_em_a
  exec_strong_a exec_u_a exec_del_a exec_inlinecode_a exec_br_a exec_text_a
  exec_heading_ctor_first exec_nptable_ctor_first exec_lheading_ctor_first exec_hr_ctor_first
  exec_codeblock_ctor_first exec_fence_ctor_first exec_blockquote_ctor_first
  exec_list_r_ctor_first exec_def_ctor_first exec_table_ctor_first exec_newline_ctor_first
  exec_paragraph_ctor_first exec_escape_ctor_link exec_autolink_ctor_link exec_mailto_ctor_link
  exec_url_ctor_link exec_link_ctor_link exec_image_ctor_link exec_reflink_ctor_link
  exec_lookbehind_empty exec_lookbehind_par exec_lookbehind_def

subsection \<open>Evaluating the default rules\<close>

lemmas rule_defs =
  heading_rule_def nptable_rule_def lheading_rule_def hr_rule_def codeBlock_rule_def
  fence_rule_def blockQuote_rule_def list_rule_def def_rule_def table_rule_def newline_rule_def
  paragraph_rule_def escape_rule_def tableSeparator_rule_def autolink_rule_def mailto_rule_def
  url_rule_def link_rule_def image_rule_def reflink_rule_def refimage_rule_def em_rule_def
  strong_rule_def u_rule_def del_rule_def inlineCode_rule_def br_rule_def text_rule_def

lemma rule_names:
  "name heading_rule = ''heading''"
  "name (nptable_rule ext) = ''nptable''"
  "name lheading_rule = ''lheading''"
  "name hr_rule = ''hr''"
  "name (codeBlock_rule ext) = ''codeBlock''"
  "name fence_rule = ''fence''"
  "name (blockQuote_rule ext) = ''blockQuote''"
  "name (list_rule ext) = ''list''"
  "name def_rule = ''def''"
  "name (table_rule ext) = ''table''"
  "name newline_rule = ''newline''"
  "name paragraph_rule = ''paragraph''"
  "name escape_rule = ''escape''"
  "name tableSeparator_rule = ''tableSeparator''"
  "name autolink_rule = ''autolink''"
  "name mailto_rule = ''mailto''"
  "name url_rule = ''url''"
  "name link_rule = ''link''"
  "name image_rule = ''image''"
  "name reflink_rule = ''reflink''"
  "name refimage_rule = ''refimage''"
  "name em_rule = ''em''"
  "name strong_rule = ''strong''"
  "name u_rule = ''u''"
  "name del_rule = ''del''"
  "name (inlineCode_rule ext) = ''inlineCode''"
  "name br_rule = ''br''"
  "name text_rule = ''text''"
  by (simp_all add: rule_defs)

lemma rule_scorers:
  "quality heading_rule = None"
  "quality (nptable_rule ext) = None"
  "quality lheading_rule = None"
  "quality hr_rule = None"
  "quality (codeBlock_rule ext) = None"
  "quality fence_rule = None"
  "quality (blockQuote_rule ext) = None"
  "quality (list_rule ext) = None"
  "quality def_rule = None"
  "quality (table_rule ext) = None"
  "quality newline_rule = None"
  "quality paragraph_rule = None"
  "quality escape_rule = None"
  "quality tableSeparator_rule = None"
  "quality autolink_rule = None"
  "quality mailto_rule = None"
  "quality url_rule = None"
  "quality link_rule = None"
  "quality image_rule = None"
  "quality reflink_rule = None"
  "quality refimage_rule = None"
  "quality em_rule = Some (by_length (2 / 10))"
  "quality strong_rule = Some (by_length (1 / 10))"
  "quality u_rule = Some (by_length 0)"
  "quality del_rule = None"
  "quality (inlineCode_rule ext) = None"
  "quality br_rule = None"
  "quality text_rule = None"
  by (simp_all add: rule_defs)

lemma rule_matchers:
  "match heading_rule = blockRegex heading_R"
  "match (nptable_rule ext) = blockRegex NPTABLE_REGEX"
  "match lheading_rule = blockRegex lheading_R"
  "match hr_rule = blockRegex hr_R"
  "match (codeBlock_rule ext) = blockRegex codeBlock_R"
  "match fence_rule = blockRegex fence_R"
  "match (blockQuote_rule ext) = blockRegex blockQuote_R"
  "match (list_rule ext) = list_match"
  "match def_rule = blockRegex def_R"
  "match (table_rule ext) = blockRegex TABLE_REGEX"
  "match newline_rule = blockRegex newline_R"
  "match paragraph_rule = blockRegex paragraph_R"
  "match escape_rule = inlineRegex escape_R"
  "match tableSeparator_rule source w =
     (if \<not> truthy (obj_get (pstate w) ''inTable'') then None else exec tableSeparator_R source)"
  "match autolink_rule = inlineRegex autolink_R"
  "match mailto_rule = inlineRegex mailto_R"
  "match url_rule = inlineRegex url_R"
  "match link_rule = inlineRegex link_R"
  "match image_rule = inlineRegex image_R"
  "match reflink_rule = inlineRegex reflink_R"
  "match refimage_rule = inlineRegex refimage_R"
  "match em_rule = inlineRegex em_R"
  "match strong_rule = inlineRegex strong_R"
  "match u_rule = inlineRegex u_R"
  "match del_rule = inlineRegex del_R"
  "match (inlineCode_rule ext) = inlineRegex inlineCode_R"
  "match br_rule = anyScopeRegex br_R"
  "match text_rule = anyScopeRegex text_R"
  by (simp_all add: rule_defs)

lemma default_rule_object:
  "toRuleObject (defaultRules ext) =
     [(''heading'', heading_rule), (''nptable'', nptable_rule ext),
     (''lheading'', lheading_rule), (''hr'', hr_rule), (''codeBlock'', codeBlock_rule ext),
     (''fence'', fence_rule), (''blockQuote'', blockQuote_rule ext), (''list'', list_rule ext),
     (''def'', def_rule), (''table'', table_rule ext), (''newline'', newline_rule),
     (''paragraph'', paragraph_rule), (''escape'', escape_rule),
     (''tableSeparator'', tableSeparator_rule), (''autolink'', autolink_rule),
     (''mailto'', mailto_rule), (''url'', url_rule), (''link'', link_rule),
     (''image'', image_rule), (''reflink'', reflink_rule), (''refimage'', refimage_rule),
     (''em'', em_rule), (''strong'', strong_rule), (''u'', u_rule), (''del'', del_rule),
     (''inlineCode'', inlineCode_rule ext), (''br'', br_rule), (''text'', text_rule)]"
  by (simp add: toRuleObject_def defaultRules_def rule_names)
lemma rule_builders:
  "parse paragraph_rule = parseCaptureInline"
  "parse def_rule = def_parse"
  "parse reflink_rule capture p w =
     (case call_parse p (grp capture 1) w of
        None \<Rightarrow> None
      | Some (Inl e) \<Rightarrow> Some (Inl e)
      | Some (Inr (result, w')) \<Rightarrow>
          (case alloc [(''type'', JStr ''link''), (''content'', nodes result)] w' of
             (refNode, w'') \<Rightarrow> parseRef capture w'' refNode))"
  "parse text_rule capture p w = build [(''content'', grp_val capture 0)] w"
  by (simp_all add: rule_defs)

lemma list_match_inline:
  "truthy (obj_get (pstate w) ''inline'') \<Longrightarrow> \<not> truthy (obj_get (pstate w) ''_list'') \<Longrightarrow>
   list_match source w = None"
  by (simp add: list_match_def Let_def split: option.splits)

lemmas select_eval =
  select_def default_rule_object walk_Nil walk_Cons consult_def currQuality_def no_best_def
  rule_names rule_scorers rule_matchers blockRegex_def inlineRegex_def anyScopeRegex_def
  grp_val_def grp_def exec_results

lemma select_ref_first:
  assumes "\<not> truthy (obj_get (pstate w) ''inline'')" and "prevCaptureStr w = []"
  shows "select (toRuleObject (defaultRules ext)) src_ref_first w =
           Inr \<lparr>best_ruleType = Some ''paragraph'', best_rule = Some paragraph_rule,
                best_capture = Some \<lparr>groups = [Some src_par, Some src_link], index = Some 0\<rparr>,
                best_quality = Fin 0, best_i = 12\<rparr>"
  using assms by (simp add: select_eval list_match_def Let_def)

lemma select_def_after_par:
  assumes "\<not> truthy (obj_get (pstate w) ''inline'')" and "prevCaptureStr w = src_par"
  shows "select (toRuleObject (defaultRules ext)) src_def w =
           Inr \<lparr>best_ruleType = Some ''def'', best_rule = Some def_rule,
                best_capture = Some \<lparr>groups = [Some src_def, Some ''x'', Some ''/url'', Some ''t''],
                                      index = Some 0\<rparr>,
                best_quality = Fin 0, best_i = 9\<rparr>"
  using assms by (simp add: select_eval list_match_def Let_def)

lemma select_def_first:
  assumes "\<not> truthy (obj_get (pstate w) ''inline'')" and "prevCaptureStr w = []"
  shows "select (toRuleObject (defaultRules ext)) src_def_first w =
           Inr \<lparr>best_ruleType = Some ''def'', best_rule = Some def_rule,
                best_capture = Some \<lparr>groups = [Some src_def, Some ''x'', Some ''/url'', Some ''t''],
                                      index = Some 0\<rparr>,
                best_quality = Fin 0, best_i = 9\<rparr>"
  using assms by (simp add: select_eval list_match_def Let_def)

lemma select_par_after_def:
  assumes "\<not> truthy (obj_get (pstate w) ''inline'')" and "prevCaptureStr w = src_def"
  shows "select (toRuleObject (defaultRules ext)) src_par w =
           Inr \<lparr>best_ruleType = Some ''paragraph'', best_rule = Some paragraph_rule,
                best_capture = Some \<lparr>groups = [Some src_par, Some src_link], index = Some 0\<rparr>,
                best_quality = Fin 0, best_i = 12\<rparr>"
  using assms by (simp add: select_eval list_match_def Let_def)

lemma select_link:
  assumes "truthy (obj_get (pstate w) ''inline'')" and "\<not> truthy (obj_get (pstate w) ''_list'')"
    and "\<not> truthy (obj_get (pstate w) ''inTable'')"
  shows "select (toRuleObject (defaultRules ext)) src_link w =
           Inr \<lparr>best_ruleType = Some ''reflink'', best_rule = Some reflink_rule,
                best_capture = Some \<lparr>groups = [Some src_link, Some src_a, Some ''x''],
                                      index = Some 0\<rparr>,
                best_quality = Fin 0, best_i = 20\<rparr>"
  using assms by (simp add: select_eval list_match_inline)

lemma select_a:
  assumes "truthy (obj_get (pstate w) ''inline'')" and "\<not> truthy (obj_get (pstate w) ''_list'')"
    and "\<not> truthy (obj_get (pstate w) ''inTable'')"
  shows "select (toRuleObject (defaultRules ext)) src_a w =
           Inr \<lparr>best_ruleType = Some ''text'', best_rule = Some text_rule,
                best_capture = Some \<lparr>groups = [Some src_a], index = Some 0\<rparr>,
                best_quality = Fin 0, best_i = 28\<rparr>"
  using assms by (simp add: select_eval list_match_inline)

lemma select_ctor_first:
  assumes "\<not> truthy (obj_get (pstate w) ''inline'')" and "prevCaptureStr w = []"
  shows "select (toRuleObject (defaultRules ext)) src_ctor_first w =
           Inr \<lparr>best_ruleType = Some ''paragraph'', best_rule = Some paragraph_rule,
                best_capture = Some \<lparr>groups = [Some src_ctor_par, Some src_ctor_link],
                                      index = Some 0\<rparr>,
                best_quality = Fin 0, best_i = 12\<rparr>"
  using assms by (simp add: select_eval list_match_def Let_def)

lemma select_ctor_link:
  assumes "truthy (obj_get (pstate w) ''inline'')" and "\<not> truthy (obj_get (pstate w) ''_list'')"
    and "\<not> truthy (obj_get (pstate w) ''inTable'')"
  shows "select (toRuleObject (defaultRules ext)) src_ctor_link w =
           Inr \<lparr>best_ruleType = Some ''reflink'', best_rule = Some reflink_rule,
                best_capture = Some \<lparr>groups = [Some src_ctor_link, Some src_a, Some ''constructor''],
                                      index = Some 0\<rparr>,
                best_quality = Fin 0, best_i = 20\<rparr>"
  using assms by (simp add: select_eval list_match_inline)

subsection \<open>The documents\<close>

lemma parseLoop_empty: "parseLoop rules n [] result w = Some (Inr (result, w))"
  by (cases n) simp_all

lemma parseLoop_step:
  "source \<noteq> [] \<Longrightarrow>
   parseLoop rules (Suc n) source result w =
     (case select rules source w of
        Inl e \<Rightarrow> Some (Inl e)
      | Inr b \<Rightarrow>
          (case found b of
             None \<Rightarrow> Some (Inl NoMatchingRule)
           | Some (ruleType, rule, capture) \<Rightarrow>
               if index_truthy capture then Some (Inl UnanchoredCapture)
               else
                 (case parse rule capture (\<lambda>src w'. parseLoop rules n src [] w') w of
                    None \<Rightarrow> None
                  | Some (Inl e) \<Rightarrow> Some (Inl e)
                  | Some (Inr (parsed, w1)) \<Rightarrow>
                      (case collapse result parsed (default_type ruleType parsed w1) of
                         (result', w2) \<Rightarrow>
                           (case groups capture of
                              Some c0 # _ \<Rightarrow>
                                parseLoop rules n (drop (length c0) source) result'
                                  (set_prevCapture (JCap capture) w2)
                            | _ \<Rightarrow> Some (Inl TypeError))))))"
  by simp

declare parseLoop.simps [simp del]

lemma source_facts:
  "src_ref_first \<noteq> []" "src_def_first \<noteq> []" "src_def \<noteq> []" "src_par \<noteq> []"
  "src_link \<noteq> []" "src_a \<noteq> []" "src_ctor_first \<noteq> []" "src_ctor_link \<noteq> []"
  "drop (length src_par) src_ref_first = src_def"
  "drop (length src_def) src_def = []"
  "drop (length src_def) src_def_first = src_par"
  "drop (length src_par) src_par = []"
  "drop (length src_link) src_link = []"
  "drop (length src_a) src_a = []"
  "preprocess (doc_ref_first @ [NL, NL]) = src_ref_first"
  "preprocess (doc_def_first @ [NL, NL]) = src_def_first"
  "preprocess (doc_ctor_first @ [NL, NL]) = src_ctor_first"
  by (simp_all add: sources doc_ref_first_def doc_def_first_def doc_ctor_first_def preprocess_def expand_tab_def
      remove_formfeed_def)

lemmas parse_eval =
  outerParse_def Let_def populateInitialState_def nestedParse_def parseLoop_step parseLoop_empty
  select_ref_first select_def_after_par select_def_first select_par_after_def select_link select_a
  select_ctor_first select_ctor_link
  found_def index_truthy_def rule_builders parseCaptureInline_def parseInline_def call_parse_def
  set_state_def build_def alloc_def nodes_def parseRef_def def_parse_def grp_or_def grp_def
  grp_val_def toLowerCase_def lower_char_def in_range_def is_space_def prop_of_def dict_get_def dict_set_def inherited_def Object_prototype_def
  default_type_def collapse_def set_prevCapture_def get_field_def set_field_def obj_get_def
  prevCaptureStr_def source_facts

text \<open>
  On the two documents of the claim the engine does what the claim says, whatever the six
  open builders are and from any store: the paragraph holds one link node, around the
  text \<open>a\<close>, with the target and the title of the definition.
\<close>

lemma forward_references_by_example:
  "(\<exists>w'. outerParse (defaultRules ext) [] (Suc (Suc (Suc (Suc k)))) doc_ref_first None w =
           Some (Inr ([Suc (Suc (fresh w)), Suc (Suc (Suc (fresh w)))], w')) \<and>
         heap w' (Suc (Suc (fresh w))) =
           [(''content'', JArr [JRef (Suc (fresh w))]), (''type'', JStr ''paragraph'')] \<and>
         heap w' (Suc (fresh w)) =
           [(''type'', JStr ''link''), (''content'', JArr [JRef (fresh w)]),
            (''target'', JStr ''/url''), (''title'', JStr ''t'')] \<and>
         heap w' (fresh w) = [(''content'', JStr ''a''), (''type'', JStr ''text'')] \<and>
         heap w' (Suc (Suc (Suc (fresh w)))) =
           [(''def'', JStr ''x''), (''target'', JStr ''/url''), (''title'', JStr ''t''),
            (''type'', JStr ''def'')]) \<and>
   (\<exists>w'. outerParse (defaultRules ext) [] (Suc (Suc (Suc (Suc k)))) doc_def_first None w =
           Some (Inr ([fresh w, Suc (Suc (Suc (fresh w)))], w')) \<and>
         heap w' (Suc (Suc (Suc (fresh w)))) =
           [(''content'', JArr [JRef (Suc (Suc (fresh w)))]), (''type'', JStr ''paragraph'')] \<and>
         heap w' (Suc (Suc (fresh w))) =
           [(''type'', JStr ''link''), (''content'', JArr [JRef (Suc (fresh w))]),
            (''target'', JStr ''/url''), (''title'', JStr ''t'')] \<and>
         heap w' (Suc (fresh w)) = [(''content'', JStr ''a''), (''type'', JStr ''text'')] \<and>
         heap w' (fresh w) =
           [(''def'', JStr ''x''), (''target'', JStr ''/url''), (''title'', JStr ''t''),
            (''type'', JStr ''def'')])"
proof -
  have a: "JStr ''a'' = JStr src_a" by (simp add: src_a_def)
  show ?thesis unfolding a by (simp add: parse_eval)
qed

text \<open>
  Claim C4. A definition may come before or after the references to it, and the nodes of
  the references are to end up with its target and title. The tables \<open>state._refs\<close> and
  \<open>state._defs\<close> are plain objects read with \<open>state._refs[ref]\<close>, so a name that
  \<open>Object.prototype\<close> bears is found in an empty table: for \<open>[a][constructor]\<close> the entry
  read is the inherited function, \<open>push\<close> is no function of it, and the parse of the
  document ends with a \<open>TypeError\<close> where the same document with the name \<open>x\<close> yields the
  link.
\<close>

theorem inherited_name_breaks_forward_reference:
  "outerParse (defaultRules ext) [] (Suc (Suc (Suc (Suc k)))) doc_ctor_first None w =
     Some (Inl TypeError)"
  by (simp add: parse_eval)

end
